theory Spec2Isabelle
  imports Main "HOL-Library.Sublist"
begin

section \<open>JavaScript string operations\<close>

text \<open>
  Strings are lists of characters. \<open>s.lastIndexOf(c)\<close> is the index of the last
  occurrence of \<open>c\<close>, or \<open>-1\<close>; \<open>s.substr(start, length)\<close> and \<open>s.substr(start)\<close>
  clamp a negative length to the empty string and count a negative start from the end;
  \<open>s.includes(p)\<close> is \<^const>\<open>sublist\<close>, \<open>s.startsWith(p)\<close> is \<^const>\<open>prefix\<close>.
\<close>

definition lastIndexOf :: "string \<Rightarrow> char \<Rightarrow> int" where
  "lastIndexOf s c =
     (if c \<in> set s
      then int (length s) - 1 - int (length (takeWhile (\<lambda>x. x \<noteq> c) (rev s)))
      else - 1)"

definition substrStart :: "string \<Rightarrow> int \<Rightarrow> nat" where
  "substrStart s start =
     (if start < 0 then nat (max (int (length s) + start) 0) else nat start)"

definition substr :: "string \<Rightarrow> int \<Rightarrow> int \<Rightarrow> string" where
  "substr s start len = take (nat len) (drop (substrStart s start) s)"

definition substrFrom :: "string \<Rightarrow> int \<Rightarrow> string" where
  "substrFrom s start = drop (substrStart s start) s"

definition includes_str :: "string \<Rightarrow> string \<Rightarrow> bool" where
  "includes_str s p = sublist p s"

definition startsWith :: "string \<Rightarrow> string \<Rightarrow> bool" where
  "startsWith s p = prefix p s"

text \<open>\<open>s.split(sep)\<close> for a one-character separator and \<open>xs.join(sep)\<close>.\<close>

fun split :: "string \<Rightarrow> char \<Rightarrow> string list" where
  "split [] c = [[]]"
| "split (x # xs) c =
     (if x = c then [] # split xs c
      else (case split xs c of
              [] \<Rightarrow> [[x]]
            | y # ys \<Rightarrow> (x # y) # ys))"

fun join :: "string list \<Rightarrow> string \<Rightarrow> string" where
  "join [] sep = []"
| "join [x] sep = x"
| "join (x # y # ys) sep = x @ sep @ join (y # ys) sep"

text \<open>Decimal rendering of a number inside a template literal.\<close>

definition digit :: "nat \<Rightarrow> char" where
  "digit d = char_of (48 + d)"

fun numberToString :: "nat \<Rightarrow> string" where
  "numberToString n =
     (if n < 10 then [digit n] else numberToString (n div 10) @ [digit (n mod 10)])"

declare numberToString.simps [simp del]

section \<open>The path module (POSIX)\<close>

text \<open>
  The plugin calls \<open>path.basename\<close>, \<open>path.dirname\<close>, \<open>path.join\<close> and
  \<open>path.relative\<close> of the Node.js standard library. They are modelled after the POSIX
  implementation: the separator is \<open>/\<close>, \<open>.\<close> and empty segments are dropped,
  \<open>..\<close> removes the segment before it. \<open>path.relative\<close> resolves a relative argument
  against the working directory, which is a parameter here.
\<close>

definition basename :: "string \<Rightarrow> string" where
  "basename p =
     rev (takeWhile (\<lambda>c. c \<noteq> CHR ''/'') (dropWhile (\<lambda>c. c = CHR ''/'') (rev p)))"

definition dirname :: "string \<Rightarrow> string" where
  "dirname p =
     (if p = [] then ''.''
      else
        let hasRoot = (hd p = CHR ''/'');
            r = dropWhile (\<lambda>c. c \<noteq> CHR ''/'') (dropWhile (\<lambda>c. c = CHR ''/'') (rev (tl p)))
        in if r = [] then (if hasRoot then ''/'' else ''.'')
           else if hasRoot \<and> tl r = [] then ''//''
           else hd p # rev (tl r))"

fun normalizeString :: "bool \<Rightarrow> string list \<Rightarrow> string list \<Rightarrow> string list" where
  "normalizeString allowAboveRoot acc [] = acc"
| "normalizeString allowAboveRoot acc (s # ss) =
     (if s = [] \<or> s = ''.'' then normalizeString allowAboveRoot acc ss
      else if s = ''..'' then
        (if acc \<noteq> [] \<and> last acc \<noteq> ''..''
         then normalizeString allowAboveRoot (butlast acc) ss
         else if allowAboveRoot then normalizeString allowAboveRoot (acc @ [''..'']) ss
         else normalizeString allowAboveRoot acc ss)
      else normalizeString allowAboveRoot (acc @ [s]) ss)"

definition isAbsolute :: "string \<Rightarrow> bool" where
  "isAbsolute p = (p \<noteq> [] \<and> hd p = CHR ''/'')"

definition normalize :: "string \<Rightarrow> string" where
  "normalize p =
     (if p = [] then ''.''
      else
        let trailingSeparator = (last p = CHR ''/'');
            q = join (normalizeString (\<not> isAbsolute p) [] (split p CHR ''/'')) ''/'';
            q1 = (if q = [] \<and> \<not> isAbsolute p then ''.'' else q);
            q2 = (if q1 \<noteq> [] \<and> trailingSeparator then q1 @ ''/'' else q1)
        in if isAbsolute p then CHR ''/'' # q2 else q2)"

definition path_join :: "string list \<Rightarrow> string" where
  "path_join args =
     (let parts = filter (\<lambda>a. a \<noteq> []) args
      in if parts = [] then ''.'' else normalize (join parts ''/''))"

definition resolve :: "string \<Rightarrow> string \<Rightarrow> string list" where
  "resolve cwd p =
     normalizeString False []
       (split (if isAbsolute p then p else if p = [] then cwd else cwd @ ''/'' @ p) CHR ''/'')"

fun stripCommon :: "string list \<Rightarrow> string list \<Rightarrow> string list \<times> string list" where
  "stripCommon (x # xs) (y # ys) =
     (if x = y then stripCommon xs ys else (x # xs, y # ys))"
| "stripCommon xs ys = (xs, ys)"

definition path_relative :: "string \<Rightarrow> string \<Rightarrow> string \<Rightarrow> string" where
  "path_relative cwd from to =
     (case stripCommon (resolve cwd from) (resolve cwd to) of
        (up, down) \<Rightarrow> join (replicate (length up) ''..'' @ down) ''/'')"

section \<open>Handler reference parsing\<close>

text \<open>
  \<open>createWrappedNodejsFunction\<close> and \<open>createWrappedPythonFunction\<close> take the module
  path from the whole handler string, up to its last dot, and the function name from
  the base name of the handler string, after that base name's last dot.
\<close>

definition handlerModulePath :: "string \<Rightarrow> string" where
  "handlerModulePath h = substr h 0 (lastIndexOf h CHR ''.'')"

definition handlerFuncName :: "string \<Rightarrow> string" where
  "handlerFuncName h =
     (let handler = basename h in substrFrom handler (lastIndexOf handler CHR ''.'' + 1))"

definition pythonModulePath :: "string \<Rightarrow> string" where
  "pythonModulePath h = join (split (handlerModulePath h) CHR ''/'') ''.''"

section \<open>The service definition and the plugin instance\<close>

text \<open>
  A function declaration of the host's registry. The plugin reads and writes
  \<open>handler\<close>; the other fields belong to the host. \<open>lumigo_enabled\<close> is the
  per-function \<open>lumigo: { enabled: ... }\<close> entry of the declaration.
\<close>

record function_decl =
  handler :: string
  events :: "string list"
  fn_runtime :: "string option"
  tags :: "(string \<times> string) list"
  environment :: "(string \<times> string) list option"
  layers :: "string list option"
  lumigo_enabled :: "bool option"

text \<open>The deep clone made by \<open>getFunctionsToWrap\<close>, with \<open>localName\<close> added.\<close>

record cloned_function =
  decl :: function_decl
  localName :: string

record package_cfg =
  individually :: bool
  include_list :: "string list option"

text \<open>The keys under \<open>custom.lumigo\<close>; \<open>None\<close> is \<open>undefined\<close>.\<close>

record lumigo_cfg =
  token :: "string option"
  edgeHost :: "string option"
  nodePackageManager :: "string option"
  useLayers :: "bool option"

record service =
  service_functions :: "(string \<times> function_decl) list"
  provider_runtime :: string
  custom_lumigo :: lumigo_cfg
  pythonRequirements_fileName :: "string option"
  plugins :: "string list"
  package :: "package_cfg option"

datatype runtime_family = Nodejs | Python | Unsupported

datatype error =
    ServerlessError string
  | ProcessError string
  | FileError string

datatype log_line = Line string | Json cloned_function

datatype fs_entry = Unreadable | Content string

text \<open>
  The plugin instance with its surroundings: the service, the memoised
  \<open>_isNodeTracerInstalled\<close>, what the environment answers (the dependencies of
  \<open>package.json\<close> or the message of the failed \<open>require\<close>, the files
  \<open>fs.pathExistsSync\<close> and \<open>fs.readFile\<close> see, the output of a command or its
  failure), and the effects performed so far, in order.
\<close>

record plugin =
  the_service :: service
  servicePath :: string
  options_function :: "string option"
  isNodeTracerInstalled_memo :: "bool option"
  cwd :: string
  SLS_DEBUG :: bool
  packageJson :: "string + string list"
  fs_files :: "string \<Rightarrow> fs_entry option"
  execSync_output :: "string \<Rightarrow> string option"
  outputFile_calls :: "(string \<times> string) list"
  remove_calls :: "string list"
  execSync_calls :: "string list"
  cli_log :: "log_line list"

type_synonym 'a result = "(error + 'a) \<times> plugin"

definition folderPath :: "plugin \<Rightarrow> string" where
  "folderPath p = path_join [servicePath p, ''_lumigo'']"

definition log :: "string \<Rightarrow> plugin \<Rightarrow> plugin" where
  "log msg p = p\<lparr>cli_log := cli_log p @ [Line (''serverless-lumigo: '' @ msg)]\<rparr>"

definition verboseLog :: "string \<Rightarrow> plugin \<Rightarrow> plugin" where
  "verboseLog msg p = (if SLS_DEBUG p then log msg p else p)"

definition verboseLogJson :: "plugin \<Rightarrow> cloned_function \<Rightarrow> plugin" where
  "verboseLogJson p fn =
     (if SLS_DEBUG p then p\<lparr>cli_log := cli_log p @ [Json fn]\<rparr> else p)"

definition toLowerCase :: "string \<Rightarrow> string" where
  "toLowerCase s =
     map (\<lambda>c. if 65 \<le> (of_char c :: nat) \<and> (of_char c :: nat) \<le> 90
              then char_of ((of_char c :: nat) + 32) else c) s"

definition get_nodePackageManager :: "plugin \<Rightarrow> string" where
  "get_nodePackageManager p =
     toLowerCase (case nodePackageManager (custom_lumigo (the_service p)) of
                    None \<Rightarrow> ''npm''
                  | Some m \<Rightarrow> m)"

definition execSync :: "string \<Rightarrow> plugin \<Rightarrow> string result" where
  "execSync cmd p =
     (let p' = p\<lparr>execSync_calls := execSync_calls p @ [cmd]\<rparr>
      in case execSync_output p cmd of
           None \<Rightarrow> (Inl (ProcessError cmd), p')
         | Some out \<Rightarrow> (Inr out, p'))"

definition outputFile :: "string \<Rightarrow> string \<Rightarrow> plugin \<Rightarrow> plugin" where
  "outputFile filePath content p =
     p\<lparr>outputFile_calls := outputFile_calls p @ [(filePath, content)]\<rparr>"

definition cleanFolder :: "plugin \<Rightarrow> plugin" where
  "cleanFolder p =
     (let p1 = verboseLog (''removing the temporary folder ['' @ folderPath p @ '']...'') p
      in p1\<lparr>remove_calls := remove_calls p1 @ [folderPath p1]\<rparr>)"

section \<open>Eligibility\<close>

definition getAllFunctions :: "service \<Rightarrow> string list" where
  "getAllFunctions svc = map fst (service_functions svc)"

definition getFunction :: "service \<Rightarrow> string \<Rightarrow> function_decl option" where
  "getFunction svc name = map_of (service_functions svc) name"

definition getFunctionsToWrap ::
  "plugin \<Rightarrow> string list option \<Rightarrow> (runtime_family \<times> cloned_function list) \<times> plugin" where
  "getFunctionsToWrap p functionNames =
     (let svc = the_service p;
          names = (case functionNames of None \<Rightarrow> getAllFunctions svc | Some ns \<Rightarrow> ns);
          fns = List.map_filter
                  (\<lambda>n. map_option (\<lambda>d. \<lparr>decl = d, localName = n\<rparr>) (getFunction svc n))
                  (filter (\<lambda>n. n \<in> set names) (getAllFunctions svc))
      in if startsWith (provider_runtime svc) ''nodejs'' then ((Nodejs, fns), p)
         else if startsWith (provider_runtime svc) ''python3'' then ((Python, fns), p)
         else ((Unsupported, []),
               log (''unsupported runtime: ['' @ provider_runtime svc @ ''], skipped...'') p))"

section \<open>Installing and removing the Node.js tracer\<close>

definition isLumigoNodejsInstalled :: "plugin \<Rightarrow> bool \<times> plugin" where
  "isLumigoNodejsInstalled p =
     (case packageJson p of
        Inr dependencies \<Rightarrow> (''@lumigo/tracer'' \<in> set dependencies, p)
      | Inl message \<Rightarrow>
          (False,
           verboseLog ''assume @lumigo/tracer has not been installed...''
             (verboseLog message
               (verboseLog
                  ''error when trying to check if @lumigo/tracer is already installed...'' p))))"

definition isNodeTracerInstalled :: "plugin \<Rightarrow> bool \<times> plugin" where
  "isNodeTracerInstalled p =
     (case isNodeTracerInstalled_memo p of
        Some b \<Rightarrow> (b, p)
      | None \<Rightarrow>
          (case isLumigoNodejsInstalled p of
             (b, p') \<Rightarrow> (b, p'\<lparr>isNodeTracerInstalled_memo := Some b\<rparr>)))"

definition noPackageManager :: error where
  "noPackageManager =
     ServerlessError ''No Node.js package manager found. Please install either NPM or Yarn.''"

definition runCommand :: "string \<Rightarrow> plugin \<Rightarrow> unit result" where
  "runCommand cmd p =
     (case execSync cmd p of
        (Inl e, p') \<Rightarrow> (Inl e, p')
      | (Inr details, p') \<Rightarrow> (Inr (), verboseLog details p'))"

definition installLumigoNodejs :: "plugin \<Rightarrow> unit result" where
  "installLumigoNodejs p =
     (case isNodeTracerInstalled p of
        (installed, p1) \<Rightarrow>
          if installed
          then (Inr (), verboseLog ''@lumigo/tracer is already installed, skipped...'' p1)
          else
            let p2 = log ''installing @lumigo/tracer...'' p1
            in if get_nodePackageManager p2 = ''npm''
               then runCommand ''npm install --no-save @lumigo/tracer@latest'' p2
               else if get_nodePackageManager p2 = ''yarn''
               then runCommand ''yarn add @lumigo/tracer@latest'' p2
               else (Inl noPackageManager, p2))"

definition uninstallLumigoNodejs :: "plugin \<Rightarrow> unit result" where
  "uninstallLumigoNodejs p =
     (case isNodeTracerInstalled p of
        (installed, p1) \<Rightarrow>
          if installed then (Inr (), p1)
          else
            let p2 = log ''uninstalling @lumigo/tracer...'' p1
            in if get_nodePackageManager p2 = ''npm''
               then runCommand ''npm uninstall @lumigo/tracer'' p2
               else if get_nodePackageManager p2 = ''yarn''
               then runCommand ''yarn remove @lumigo/tracer'' p2
               else (Inl noPackageManager, p2))"

section \<open>Checking the Python requirements\<close>

definition ensureTracerInstalled :: "bool \<Rightarrow> string \<Rightarrow> plugin \<Rightarrow> unit result" where
  "ensureTracerInstalled slsPythonInstalled fileName p =
     (case fs_files p fileName of
        None \<Rightarrow>
          (Inl (ServerlessError
                  (fileName @ '' is not found.'' @
                   (if \<not> slsPythonInstalled
                    then ''\<newline>Consider using the serverless-python-requirements plugin to help you package Python dependencies.''
                    else []))), p)
      | Some Unreadable \<Rightarrow> (Inl (FileError fileName), p)
      | Some (Content requirements) \<Rightarrow>
          if \<not> includes_str requirements ''lumigo_tracer''
          then (Inl (ServerlessError
                       (''lumigo_tracer is not installed. Please check '' @ fileName @ ''.'')), p)
          else (Inr (), p))"

fun ensureEachFunction ::
  "bool \<Rightarrow> string option \<Rightarrow> cloned_function list \<Rightarrow> plugin \<Rightarrow> unit result" where
  "ensureEachFunction sls override [] p = (Inr (), p)"
| "ensureEachFunction sls override (fn # fns) p =
     (let dir = dirname (handler (decl fn));
          defaultRequirementsFilename = path_join [dir, ''requirements.txt''];
          requirementsFilename =
            (case override of None \<Rightarrow> defaultRequirementsFilename | Some f \<Rightarrow> f)
      in case ensureTracerInstalled sls requirementsFilename p of
           (Inl e, p') \<Rightarrow> (Inl e, p')
         | (Inr u, p') \<Rightarrow> ensureEachFunction sls override fns p')"

definition ensureLumigoPythonIsInstalled :: "plugin \<Rightarrow> unit result" where
  "ensureLumigoPythonIsInstalled p =
     (let p1 = log ''checking if lumigo_tracer is installed...'' p;
          slsPythonInstalled =
            (''serverless-python-requirements'' \<in> set (plugins (the_service p1)));
          override = pythonRequirements_fileName (the_service p1);
          packageIndividually =
            (case package (the_service p1) of None \<Rightarrow> False | Some pk \<Rightarrow> individually pk)
      in if packageIndividually
         then
           (let p2 = log ''functions are packed individually, ensuring each function has a requirement.txt...'' p1
            in case getFunctionsToWrap p2 None of
                 ((family, fns), p3) \<Rightarrow> ensureEachFunction slsPythonInstalled override fns p3)
         else
           (let p2 = log ''ensuring there is a requirement.txt or equivalent...'' p1
            in ensureTracerInstalled slsPythonInstalled
                 (case override of None \<Rightarrow> ''requirements.txt'' | Some f \<Rightarrow> f) p2))"

section \<open>Generating the wrappers\<close>

definition sq :: string where
  "sq = [CHR 0x27]"

definition getNodeTracerParameters :: "string option \<Rightarrow> string option \<Rightarrow> error + string" where
  "getNodeTracerParameters tok edge =
     (case tok of
        None \<Rightarrow> Inl (ServerlessError ''Lumigo's tracer token is undefined'')
      | Some t \<Rightarrow>
          Inr (join ([''token: '' @ sq @ t @ sq] @
                     (case edge of
                        None \<Rightarrow> []
                      | Some e \<Rightarrow> if e \<noteq> [] then [''edgeHost: '' @ sq @ e @ sq] else []))
                 '',''))"

definition nodejsWrapper :: "string \<Rightarrow> string \<Rightarrow> string \<Rightarrow> string" where
  \<open>nodejsWrapper params modulePath funcName =
     ''\<newline>const tracer = require("@lumigo/tracer")({\<newline>'' @ [CHR 0x09] @ params @
     ''\<newline>});\<newline>const handler = require('../'' @ modulePath @ sq @ '').'' @ funcName @
     '';\<newline>\<newline>module.exports.'' @ funcName @
     '' = tracer.trace(handler);\<newline>    ''\<close>

definition pythonWrapper :: "string \<Rightarrow> string \<Rightarrow> string \<Rightarrow> string" where
  "pythonWrapper tok modulePath funcName =
     ''\<newline>from lumigo_tracer import lumigo_tracer\<newline>from '' @ modulePath @
     '' import '' @ funcName @
     '' as userHandler\<newline>\<newline>@lumigo_tracer(token='' @ sq @ tok @ sq @
     '')\<newline>def '' @ funcName @
     ''(event, context):\<newline>  return userHandler(event, context)\<newline>    ''"

text \<open>
  Both functions write \<open>_lumigo/<localName>.<ext>\<close> under the service path and return
  the new handler: the written path relative to the service path, up to and including
  its last dot, followed by the function name.
\<close>

definition tracedHandler :: "plugin \<Rightarrow> string \<Rightarrow> string \<Rightarrow> string" where
  "tracedHandler p filePath funcName =
     (let newFilePath = path_relative (cwd p) (servicePath p) filePath
      in substr newFilePath 0 (lastIndexOf newFilePath CHR ''.'' + 1) @ funcName)"

definition createWrappedNodejsFunction ::
  "cloned_function \<Rightarrow> string option \<Rightarrow> string option \<Rightarrow> plugin \<Rightarrow> string result" where
  "createWrappedNodejsFunction func tok edge p =
     (let p1 = verboseLog (''wrapping ['' @ handler (decl func) @ '']...'') p
      in case getNodeTracerParameters tok edge of
           Inl e \<Rightarrow> (Inl e, p1)
         | Inr params \<Rightarrow>
             let wrappedFunction =
                   nodejsWrapper params (handlerModulePath (handler (decl func)))
                     (handlerFuncName (handler (decl func)));
                 fileName = localName func @ ''.js'';
                 filePath = path_join [folderPath p1, fileName];
                 p2 = verboseLog (''writing wrapper function to ['' @ filePath @ '']...'') p1;
                 p3 = outputFile filePath wrappedFunction p2
             in (Inr (tracedHandler p3 filePath (handlerFuncName (handler (decl func)))), p3))"

text \<open>
  Inside the template literal an undefined token would read \<open>undefined\<close>;
  \<open>wrapFunctions\<close> has rejected it before.
\<close>

definition tokenText :: "string option \<Rightarrow> string" where
  "tokenText tok = (case tok of None \<Rightarrow> ''undefined'' | Some t \<Rightarrow> t)"

definition createWrappedPythonFunction ::
  "cloned_function \<Rightarrow> string option \<Rightarrow> plugin \<Rightarrow> string result" where
  "createWrappedPythonFunction func tok p =
     (let p1 = verboseLog (''wrapping ['' @ handler (decl func) @ '']...'') p;
          wrappedFunction =
            pythonWrapper (tokenText tok) (pythonModulePath (handler (decl func)))
              (handlerFuncName (handler (decl func)));
          fileName = localName func @ ''.py'';
          filePath = path_join [folderPath p1, fileName];
          p2 = verboseLog (''writing wrapper function to ['' @ filePath @ '']...'') p1;
          p3 = outputFile filePath wrappedFunction p2
      in (Inr (tracedHandler p3 filePath (handlerFuncName (handler (decl func)))), p3))"

section \<open>The wrap pass and the clean-up\<close>

definition setHandler ::
  "string \<Rightarrow> string \<Rightarrow> (string \<times> function_decl) list \<Rightarrow> (string \<times> function_decl) list" where
  "setHandler name h fs =
     map (\<lambda>(n, d). if n = name then (n, d\<lparr>handler := h\<rparr>) else (n, d)) fs"

definition replaceHandler :: "cloned_function \<Rightarrow> string \<Rightarrow> plugin \<Rightarrow> plugin" where
  "replaceHandler func h p =
     (let p1 = verboseLog (''setting ['' @ localName func @ '']'' @ sq @ ''s handler to ['' @ h @ '']...'') p
      in p1\<lparr>the_service := (the_service p1)
               \<lparr>service_functions := setHandler (localName func) h (service_functions (the_service p1))\<rparr>\<rparr>)"

fun wrapNodejsFunctions ::
  "cloned_function list \<Rightarrow> string option \<Rightarrow> string option \<Rightarrow> plugin \<Rightarrow> unit result" where
  "wrapNodejsFunctions [] tok edge p = (Inr (), p)"
| "wrapNodejsFunctions (func # funcs) tok edge p =
     (case createWrappedNodejsFunction func tok edge p of
        (Inl e, p') \<Rightarrow> (Inl e, p')
      | (Inr h, p') \<Rightarrow> wrapNodejsFunctions funcs tok edge (replaceHandler func h p'))"

fun wrapPythonFunctions ::
  "cloned_function list \<Rightarrow> string option \<Rightarrow> plugin \<Rightarrow> unit result" where
  "wrapPythonFunctions [] tok p = (Inr (), p)"
| "wrapPythonFunctions (func # funcs) tok p =
     (case createWrappedPythonFunction func tok p of
        (Inl e, p') \<Rightarrow> (Inl e, p')
      | (Inr h, p') \<Rightarrow> wrapPythonFunctions funcs tok (replaceHandler func h p'))"

definition includeLumigo :: "plugin \<Rightarrow> plugin" where
  "includeLumigo p =
     (case package (the_service p) of
        None \<Rightarrow> p
      | Some pk \<Rightarrow>
          p\<lparr>the_service := (the_service p)
              \<lparr>package := Some (pk\<lparr>include_list :=
                  Some ((case include_list pk of None \<Rightarrow> [] | Some xs \<Rightarrow> xs) @ [''_lumigo/*''])\<rparr>)\<rparr>\<rparr>)"

definition tokenMissing :: error where
  "tokenMissing =
     ServerlessError
       ''serverless-lumigo: Unable to find token. Please follow https://github.com/lumigo-io/serverless-lumigo''"

definition wrapFunctions :: "string list option \<Rightarrow> plugin \<Rightarrow> unit result" where
  "wrapFunctions functionNames p =
     (case getFunctionsToWrap p functionNames of
        ((family, fns), p1) \<Rightarrow>
          let p2 = log (''there are '' @ numberToString (length fns) @ '' function(s) to wrap...'') p1;
              p3 = foldl verboseLogJson p2 fns
          in if length fns = 0 then (Inr (), p3)
             else
               let tok = token (custom_lumigo (the_service p3));
                   edge = edgeHost (custom_lumigo (the_service p3))
               in if tok = None then (Inl tokenMissing, p3)
                  else
                    (case (case family of
                             Nodejs \<Rightarrow>
                               (case installLumigoNodejs p3 of
                                  (Inl e, p4) \<Rightarrow> (Inl e, p4)
                                | (Inr u, p4) \<Rightarrow> wrapNodejsFunctions fns tok edge p4)
                           | Python \<Rightarrow>
                               (case ensureLumigoPythonIsInstalled p3 of
                                  (Inl e, p4) \<Rightarrow> (Inl e, p4)
                                | (Inr u, p4) \<Rightarrow> wrapPythonFunctions fns tok p4)
                           | Unsupported \<Rightarrow> (Inr (), p3)) of
                       (Inl e, p5) \<Rightarrow> (Inl e, p5)
                     | (Inr u, p5) \<Rightarrow> (Inr (), includeLumigo p5)))"

definition afterDeployFunctionInitialize :: "plugin \<Rightarrow> unit result" where
  "afterDeployFunctionInitialize p =
     wrapFunctions (Some (case options_function p of None \<Rightarrow> [] | Some f \<Rightarrow> [f])) p"

definition afterPackageInitialize :: "plugin \<Rightarrow> unit result" where
  "afterPackageInitialize p = wrapFunctions None p"

definition afterCreateDeploymentArtifacts :: "plugin \<Rightarrow> unit result" where
  "afterCreateDeploymentArtifacts p =
     (case getFunctionsToWrap p None of
        ((family, fns), p1) \<Rightarrow>
          if length fns = 0 then (Inr (), p1)
          else
            let p2 = cleanFolder p1
            in if family = Nodejs then uninstallLumigoNodejs p2 else (Inr (), p2))"

section \<open>The service of the test-suite\<close>

text \<open>
  The functions the test-suite declares before each test, a token, no package section,
  a manifest without the tracer, a requirements file that names the tracer, and
  commands that succeed with empty output.
\<close>

definition fixture_decl :: "string \<Rightarrow> function_decl" where
  "fixture_decl h =
     \<lparr>handler = h, events = [], fn_runtime = None, tags = [], environment = None,
      layers = None, lumigo_enabled = None\<rparr>"

definition fixture_functions :: "(string \<times> function_decl) list" where
  "fixture_functions =
     [(''hello'', fixture_decl ''hello.world''),
      (''hello.world'', fixture_decl ''hello.world.handler''),
      (''foo'', fixture_decl ''foo_bar.handler''),
      (''bar'', fixture_decl ''foo_bar.handler''),
      (''jet'', fixture_decl ''foo/foo/bar.handler''),
      (''pack'', fixture_decl ''foo.bar/zoo.handler''),
      (''skippy'', (fixture_decl ''will.skip'')\<lparr>lumigo_enabled := Some False\<rparr>)]"

definition fixture_lumigo :: lumigo_cfg where
  "fixture_lumigo =
     \<lparr>token = Some ''test-token'', edgeHost = None, nodePackageManager = None,
      useLayers = None\<rparr>"

definition fixture_plugin ::
  "string \<Rightarrow> lumigo_cfg \<Rightarrow> (string \<times> function_decl) list \<Rightarrow> plugin" where
  "fixture_plugin rt cfg fs =
     \<lparr>the_service =
        \<lparr>service_functions = fs, provider_runtime = rt, custom_lumigo = cfg,
         pythonRequirements_fileName = None, plugins = [], package = None\<rparr>,
      servicePath = ''/project'',
      options_function = None,
      isNodeTracerInstalled_memo = None,
      cwd = ''/project'',
      SLS_DEBUG = False,
      packageJson = Inr [],
      fs_files = (\<lambda>f. if f = ''requirements.txt'' then Some (Content ''lumigo_tracer'') else None),
      execSync_output = (\<lambda>c. Some []),
      outputFile_calls = [],
      remove_calls = [],
      execSync_calls = [],
      cli_log = []\<rparr>"

section \<open>Notions used in the statements\<close>

text \<open>A list of path segments that normalisation leaves as it is.\<close>

definition goodSegs :: "string list \<Rightarrow> bool" where
  "goodSegs xs = (\<forall>s \<in> set xs. s \<noteq> [] \<and> s \<noteq> ''.'' \<and> s \<noteq> ''..'' \<and> CHR ''/'' \<notin> set s)"

text \<open>
  A declaration of the registry before and after: same name, same fields except
  perhaps \<open>handler\<close>, and the very same declaration when the name is not in \<open>N\<close>.
  \<open>onlyHandlers N s s'\<close>: the service \<open>s'\<close> is \<open>s\<close> up to the handlers of the
  functions named in \<open>N\<close>; no declaration is added, removed or moved.
\<close>

definition keptButHandler ::
  "string set \<Rightarrow> string \<times> function_decl \<Rightarrow> string \<times> function_decl \<Rightarrow> bool" where
  "keptButHandler N x y \<longleftrightarrow>
     fst y = fst x \<and> (fst x \<notin> N \<longrightarrow> snd y = snd x) \<and>
     (snd y)\<lparr>handler := handler (snd x)\<rparr> = snd x"

definition onlyHandlers :: "string set \<Rightarrow> service \<Rightarrow> service \<Rightarrow> bool" where
  "onlyHandlers N s s' \<longleftrightarrow>
     s'\<lparr>service_functions := service_functions s\<rparr> = s \<and>
     list_all2 (keptButHandler N) (service_functions s) (service_functions s')"

text \<open>What no operation of the plugin changes.\<close>

definition surroundings ::
  "plugin \<Rightarrow> string \<times> string \<times> bool \<times> string option \<times> (string + string list) \<times>
     (string \<Rightarrow> fs_entry option) \<times> (string \<Rightarrow> string option)" where
  "surroundings p =
     (servicePath p, cwd p, SLS_DEBUG p, options_function p, packageJson p, fs_files p,
      execSync_output p)"

text \<open>
  The value of the getter \<open>isNodeTracerInstalled\<close>: the memoised answer, or what the
  manifest says on first access. \<open>packageManagerCommand\<close> chooses between the npm and
  the yarn command line.
\<close>

definition tracerInstalled :: "plugin \<Rightarrow> bool" where
  "tracerInstalled p =
     (case isNodeTracerInstalled_memo p of
        Some b \<Rightarrow> b
      | None \<Rightarrow> (case packageJson p of Inr deps \<Rightarrow> ''@lumigo/tracer'' \<in> set deps | Inl m \<Rightarrow> False))"

definition packageManagerCommand :: "plugin \<Rightarrow> string \<Rightarrow> string \<Rightarrow> string option" where
  "packageManagerCommand p npm yarn =
     (if get_nodePackageManager p = ''npm'' then Some npm
      else if get_nodePackageManager p = ''yarn'' then Some yarn else None)"

text \<open>The parameters, the written file and the new handler of one function.\<close>

definition tracerParameters :: "string \<Rightarrow> string option \<Rightarrow> string" where
  "tracerParameters t edge =
     join ([''token: '' @ sq @ t @ sq] @
           (case edge of
              None \<Rightarrow> []
            | Some e \<Rightarrow> if e \<noteq> [] then [''edgeHost: '' @ sq @ e @ sq] else []))
       '',''"

definition nodejsArtifact :: "plugin \<Rightarrow> string \<Rightarrow> string option \<Rightarrow> cloned_function \<Rightarrow> string \<times> string" where
  "nodejsArtifact p t edge func =
     (path_join [folderPath p, localName func @ ''.js''],
      nodejsWrapper (tracerParameters t edge) (handlerModulePath (handler (decl func)))
        (handlerFuncName (handler (decl func))))"

definition nodejsHandler :: "plugin \<Rightarrow> cloned_function \<Rightarrow> string" where
  "nodejsHandler p func =
     tracedHandler p (path_join [folderPath p, localName func @ ''.js''])
       (handlerFuncName (handler (decl func)))"

definition pythonArtifact :: "plugin \<Rightarrow> string option \<Rightarrow> cloned_function \<Rightarrow> string \<times> string" where
  "pythonArtifact p tok func =
     (path_join [folderPath p, localName func @ ''.py''],
      pythonWrapper (tokenText tok) (pythonModulePath (handler (decl func)))
        (handlerFuncName (handler (decl func))))"

definition pythonHandler :: "plugin \<Rightarrow> cloned_function \<Rightarrow> string" where
  "pythonHandler p func =
     tracedHandler p (path_join [folderPath p, localName func @ ''.py''])
       (handlerFuncName (handler (decl func)))"

text \<open>The handlers of a list of functions replaced one after the other.\<close>

definition setHandlers ::
  "(cloned_function \<Rightarrow> string) \<Rightarrow> cloned_function list \<Rightarrow> (string \<times> function_decl) list \<Rightarrow>
     (string \<times> function_decl) list" where
  "setHandlers H funcs fs = foldl (\<lambda>fs f. setHandler (localName f) (H f) fs) fs funcs"

text \<open>The package section after \<open>_lumigo/*\<close> has been appended to its include list.\<close>

definition includedPackage :: "package_cfg option \<Rightarrow> package_cfg option" where
  "includedPackage pkg =
     map_option
       (\<lambda>pk. pk\<lparr>include_list :=
                 Some ((case include_list pk of None \<Rightarrow> [] | Some xs \<Rightarrow> xs) @ [''_lumigo/*''])\<rparr>)
       pkg"

text \<open>The part of \<open>wrapFunctions\<close> that follows the token check, by runtime family.\<close>

definition wrapPass ::
  "runtime_family \<Rightarrow> cloned_function list \<Rightarrow> string option \<Rightarrow> string option \<Rightarrow> plugin \<Rightarrow> unit result" where
  "wrapPass family fns tok edge p3 =
     (case family of
        Nodejs \<Rightarrow>
          (case fst (installLumigoNodejs p3) of
             Inl e \<Rightarrow> (Inl e, snd (installLumigoNodejs p3))
           | Inr u \<Rightarrow> wrapNodejsFunctions fns tok edge (snd (installLumigoNodejs p3)))
      | Python \<Rightarrow>
          (case fst (ensureLumigoPythonIsInstalled p3) of
             Inl e \<Rightarrow> (Inl e, snd (ensureLumigoPythonIsInstalled p3))
           | Inr u \<Rightarrow> wrapPythonFunctions fns tok (snd (ensureLumigoPythonIsInstalled p3)))
      | Unsupported \<Rightarrow> (Inr (), p3))"

section \<open>Basic facts\<close>

lemma digit_0: "digit 0 = CHR ''0''"
  by code_simp

lemma numberToString_0: "numberToString 0 = ''0''"
  by (simp add: numberToString.simps [of 0] digit_0)

lemma getFunction_declared:
  "n \<in> set (getAllFunctions svc) \<Longrightarrow> \<exists>d. getFunction svc n = Some d"
  unfolding getAllFunctions_def getFunction_def
  by (metis domIff dom_map_of_conv_image_fst not_Some_eq set_map)

lemma map_filter_names:
  assumes "\<forall>n \<in> set ns. \<exists>d. g n = Some d"
  shows "map localName
           (List.map_filter (\<lambda>n. map_option (\<lambda>d. \<lparr>decl = d, localName = n\<rparr>) (g n)) ns) = ns"
  using assms by (induction ns) (auto simp: List.map_filter_simps)

lemma eligible_names:
  "map localName (snd (fst (getFunctionsToWrap p (Some names)))) =
     (if startsWith (provider_runtime (the_service p)) ''nodejs'' \<or>
         startsWith (provider_runtime (the_service p)) ''python3''
      then filter (\<lambda>n. n \<in> set names) (getAllFunctions (the_service p)) else [])"
proof -
  have "\<forall>n \<in> set (filter (\<lambda>n. n \<in> set names) (getAllFunctions (the_service p))).
          \<exists>d. getFunction (the_service p) n = Some d"
    by (simp add: getFunction_declared)
  from map_filter_names [OF this] show ?thesis
    by (simp add: getFunctionsToWrap_def Let_def)
qed

lemma getFunctionsToWrap_empty:
  assumes "set names \<inter> set (getAllFunctions (the_service p)) = {}"
  shows "snd (fst (getFunctionsToWrap p (Some names))) = []"
proof -
  have "filter (\<lambda>n. n \<in> set names) (getAllFunctions (the_service p)) = []"
    using assms by (auto simp: filter_empty_conv)
  then show ?thesis
    by (simp add: getFunctionsToWrap_def Let_def List.map_filter_simps)
qed

lemma getFunctionsToWrap_effects:
  "outputFile_calls (snd (getFunctionsToWrap p ns)) = outputFile_calls p \<and>
   execSync_calls (snd (getFunctionsToWrap p ns)) = execSync_calls p \<and>
   remove_calls (snd (getFunctionsToWrap p ns)) = remove_calls p \<and>
   the_service (snd (getFunctionsToWrap p ns)) = the_service p \<and>
   SLS_DEBUG (snd (getFunctionsToWrap p ns)) = SLS_DEBUG p"
  by (simp add: getFunctionsToWrap_def Let_def log_def)

lemma wrapFunctions_nothing_to_wrap:
  assumes "snd (fst (getFunctionsToWrap p ns)) = []"
  shows "fst (wrapFunctions ns p) = Inr () \<and>
         outputFile_calls (snd (wrapFunctions ns p)) = outputFile_calls p \<and>
         execSync_calls (snd (wrapFunctions ns p)) = execSync_calls p \<and>
         remove_calls (snd (wrapFunctions ns p)) = remove_calls p \<and>
         the_service (snd (wrapFunctions ns p)) = the_service p"
proof -
  obtain family fns p1 where g: "getFunctionsToWrap p ns = ((family, fns), p1)"
    by (metis surj_pair)
  with assms have "fns = []" by simp
  with g getFunctionsToWrap_effects [of p ns] show ?thesis
    by (simp add: wrapFunctions_def Let_def log_def)
qed

section \<open>Paths\<close>

lemma split_nonempty: "split s c \<noteq> []"
  by (induction s) (auto split: list.splits)

lemma split_append_sep: "split (a @ c # b) c = split a c @ split b c"
proof (induction a)
  case Nil
  then show ?case by simp
next
  case (Cons x a)
  then show ?case
    using split_nonempty [of a c] by (cases "split a c") auto
qed

lemma split_no_sep: "c \<notin> set s \<Longrightarrow> split s c = [s]"
  by (induction s) auto

lemma split_segments: "s \<in> set (split p c) \<Longrightarrow> c \<notin> set s"
proof (induction p arbitrary: s)
  case Nil
  then show ?case by simp
next
  case (Cons x p)
  then show ?case
    using split_nonempty [of p c]
    by (cases "split p c") (auto split: if_splits)
qed

lemma split_join:
  "xs \<noteq> [] \<Longrightarrow> \<forall>s \<in> set xs. c \<notin> set s \<Longrightarrow> split (join xs [c]) c = xs"
proof (induction xs "[c]" rule: join.induct)
  case 1
  then show ?case by simp
next
  case (2 x)
  then show ?case by (simp add: split_no_sep)
next
  case (3 x y ys)
  then show ?case
    using split_append_sep [of x c "join (y # ys) [c]"] by (simp add: split_no_sep)
qed

lemma normalizeString_append:
  "normalizeString ab acc (xs @ ys) = normalizeString ab (normalizeString ab acc xs) ys"
  by (induction xs arbitrary: acc) auto

lemma normalizeString_good:
  "goodSegs xs \<Longrightarrow> normalizeString ab acc xs = acc @ xs"
  by (induction xs arbitrary: acc) (auto simp: goodSegs_def)

lemma goodSegs_butlast: "goodSegs acc \<Longrightarrow> goodSegs (butlast acc)"
  by (auto simp: goodSegs_def dest: in_set_butlastD)

lemma normalizeString_is_good:
  "goodSegs acc \<Longrightarrow> \<forall>s \<in> set xs. CHR ''/'' \<notin> set s \<Longrightarrow>
   goodSegs (normalizeString False acc xs)"
proof (induction xs arbitrary: acc)
  case Nil
  then show ?case by simp
next
  case (Cons x xs)
  have "goodSegs (acc @ [x])" if "x \<noteq> []" "x \<noteq> ''.''" "x \<noteq> ''..''"
    using that Cons.prems by (auto simp: goodSegs_def)
  with Cons show ?case
    by (auto simp: goodSegs_butlast)
qed

lemma resolve_absolute:
  "isAbsolute s \<Longrightarrow> resolve cwd0 s = normalizeString False [] (split s CHR ''/'')"
  by (simp add: resolve_def)

lemma resolve_good: "isAbsolute s \<Longrightarrow> goodSegs (resolve cwd0 s)"
  unfolding resolve_def
  by (intro normalizeString_is_good) (auto simp: goodSegs_def dest: split_segments)

lemma goodSegs_no_sep: "goodSegs xs \<Longrightarrow> \<forall>s \<in> set xs. CHR ''/'' \<notin> set s"
  by (simp add: goodSegs_def)

lemma join_nonempty: "goodSegs xs \<Longrightarrow> xs \<noteq> [] \<Longrightarrow> join xs sep \<noteq> []"
  by (induction xs sep rule: join.induct) (auto simp: goodSegs_def)

text \<open>Joining an absolute path with one more segment.\<close>

lemma path_join_segment:
  assumes "isAbsolute s" and "goodSegs [x]"
  shows "path_join [s, x] = CHR ''/'' # join (resolve cwd0 s @ [x]) ''/'' \<and>
         isAbsolute (path_join [s, x]) \<and>
         resolve cwd0 (path_join [s, x]) = resolve cwd0 s @ [x]"
proof -
  let ?R = "resolve cwd0 s"
  from assms(2) have x: "x \<noteq> []" "CHR ''/'' \<notin> set x" by (simp_all add: goodSegs_def)
  from assms(1) have s: "s \<noteq> []" by (simp add: isAbsolute_def)
  have good: "goodSegs (?R @ [x])"
    using resolve_good [OF assms(1), of cwd0] assms(2) by (auto simp: goodSegs_def)
  have abs: "isAbsolute (s @ CHR ''/'' # x)"
    using assms(1) by (simp add: isAbsolute_def)
  have "normalizeString False [] (split (s @ CHR ''/'' # x) CHR ''/'') =
          normalizeString False ?R [x]"
    using assms(1)
    by (simp only: split_append_sep split_no_sep [OF x(2)] normalizeString_append
        resolve_absolute)
  then have segs: "normalizeString False [] (split (s @ CHR ''/'' # x) CHR ''/'') = ?R @ [x]"
    by (simp only: normalizeString_good [OF assms(2)])
  have ne: "join (?R @ [x]) ''/'' \<noteq> []"
    using good by (simp add: join_nonempty)
  have lst: "last (s @ CHR ''/'' # x) \<noteq> CHR ''/''"
    using x by (metis last_appendR last_in_set list.distinct(1) last_ConsR)
  have j: "path_join [s, x] = CHR ''/'' # join (?R @ [x]) ''/''"
    using s x abs segs ne lst by (simp add: path_join_def normalize_def Let_def)
  have "split (join (?R @ [x]) ''/'') CHR ''/'' = ?R @ [x]"
    using split_join [of "?R @ [x]" "CHR ''/''"] goodSegs_no_sep [OF good] by simp
  then have "resolve cwd0 (path_join [s, x]) = ?R @ [x]"
    using good by (simp add: j resolve_def isAbsolute_def normalizeString_good)
  with j show ?thesis
    by (simp add: isAbsolute_def)
qed

lemma path_join_absolute:
  "isAbsolute s \<Longrightarrow> goodSegs [x] \<Longrightarrow> isAbsolute (path_join [s, x])"
  using path_join_segment by blast

lemma path_join_resolve:
  "isAbsolute s \<Longrightarrow> goodSegs [x] \<Longrightarrow>
   resolve cwd0 (path_join [s, x]) = resolve cwd0 s @ [x]"
  using path_join_segment by blast

lemma stripCommon_prefix: "stripCommon xs (xs @ ys) = ([], ys)"
  by (induction xs) auto

lemma lastIndexOf_last:
  assumes "c \<notin> set b"
  shows "lastIndexOf (a @ c # b) c = int (length a)"
proof -
  have "takeWhile (\<lambda>x. x \<noteq> c) (rev b @ c # rev a) = rev b"
    using assms by (subst takeWhile_append2) auto
  then show ?thesis
    by (simp add: lastIndexOf_def)
qed

lemma substr_prefix: "substr (a @ b) 0 (int (length a)) = a"
  by (simp add: substr_def substrStart_def)

section \<open>Effects of the operations\<close>

lemma log_effects [simp]:
  "the_service (log m p) = the_service p"
  "servicePath (log m p) = servicePath p"
  "cwd (log m p) = cwd p"
  "SLS_DEBUG (log m p) = SLS_DEBUG p"
  "options_function (log m p) = options_function p"
  "isNodeTracerInstalled_memo (log m p) = isNodeTracerInstalled_memo p"
  "packageJson (log m p) = packageJson p"
  "fs_files (log m p) = fs_files p"
  "execSync_output (log m p) = execSync_output p"
  "outputFile_calls (log m p) = outputFile_calls p"
  "remove_calls (log m p) = remove_calls p"
  "execSync_calls (log m p) = execSync_calls p"
  by (simp_all add: log_def)

lemma verboseLog_effects [simp]:
  "the_service (verboseLog m p) = the_service p"
  "servicePath (verboseLog m p) = servicePath p"
  "cwd (verboseLog m p) = cwd p"
  "SLS_DEBUG (verboseLog m p) = SLS_DEBUG p"
  "options_function (verboseLog m p) = options_function p"
  "isNodeTracerInstalled_memo (verboseLog m p) = isNodeTracerInstalled_memo p"
  "packageJson (verboseLog m p) = packageJson p"
  "fs_files (verboseLog m p) = fs_files p"
  "execSync_output (verboseLog m p) = execSync_output p"
  "outputFile_calls (verboseLog m p) = outputFile_calls p"
  "remove_calls (verboseLog m p) = remove_calls p"
  "execSync_calls (verboseLog m p) = execSync_calls p"
  by (simp_all add: verboseLog_def)

lemma outputFile_effects [simp]:
  "the_service (outputFile f c p) = the_service p"
  "servicePath (outputFile f c p) = servicePath p"
  "cwd (outputFile f c p) = cwd p"
  "SLS_DEBUG (outputFile f c p) = SLS_DEBUG p"
  "options_function (outputFile f c p) = options_function p"
  "isNodeTracerInstalled_memo (outputFile f c p) = isNodeTracerInstalled_memo p"
  "packageJson (outputFile f c p) = packageJson p"
  "fs_files (outputFile f c p) = fs_files p"
  "execSync_output (outputFile f c p) = execSync_output p"
  "outputFile_calls (outputFile f c p) = outputFile_calls p @ [(f, c)]"
  "remove_calls (outputFile f c p) = remove_calls p"
  "execSync_calls (outputFile f c p) = execSync_calls p"
  "cli_log (outputFile f c p) = cli_log p"
  by (simp_all add: outputFile_def)

lemma goodSegs_fileName:
  assumes "CHR ''/'' \<notin> set name" and "ext = ''.js'' \<or> ext = ''.py''"
  shows "goodSegs [name @ ext]"
proof -
  have "length (name @ ext) \<ge> 3" using assms(2) by auto
  then have "name @ ext \<noteq> []" "name @ ext \<noteq> ''.''" "name @ ext \<noteq> ''..''"
    by (auto simp del: append_is_Nil_conv length_append dest: arg_cong [of _ _ length])
  then show ?thesis using assms by (auto simp: goodSegs_def)
qed

lemma artifact_relative:
  assumes "isAbsolute (servicePath p)" and "goodSegs [fileName]"
  shows "path_relative (cwd p) (servicePath p) (path_join [folderPath p, fileName]) =
           ''_lumigo/'' @ fileName"
proof -
  have g: "goodSegs [''_lumigo'']" by (simp add: goodSegs_def)
  have "resolve (cwd p) (path_join [folderPath p, fileName]) =
          resolve (cwd p) (servicePath p) @ [''_lumigo'', fileName]"
    unfolding folderPath_def
    by (simp add: path_join_resolve [OF path_join_absolute [OF assms(1) g] assms(2)]
        path_join_resolve [OF assms(1) g])
  then show ?thesis
    by (simp add: path_relative_def stripCommon_prefix)
qed

lemma tracedHandler_artifact:
  assumes "isAbsolute (servicePath p)" and "CHR ''/'' \<notin> set name"
    and "ext = ''.js'' \<or> ext = ''.py''"
  shows "tracedHandler p (path_join [folderPath p, name @ ext]) f = ''_lumigo/'' @ name @ ''.'' @ f"
proof -
  have r: "path_relative (cwd p) (servicePath p) (path_join [folderPath p, name @ ext]) =
             ''_lumigo/'' @ name @ ext"
    using artifact_relative [OF assms(1) goodSegs_fileName [OF assms(2,3)]] by simp
  from assms(3) obtain e where e: "ext = CHR ''.'' # e" "CHR ''.'' \<notin> set e" by auto
  have i: "lastIndexOf ((''_lumigo/'' @ name) @ CHR ''.'' # e) CHR ''.'' =
             int (length (''_lumigo/'' @ name))"
    by (rule lastIndexOf_last [OF e(2)])
  have "substr ((''_lumigo/'' @ name @ ''.'') @ e) 0 (int (length (''_lumigo/'' @ name @ ''.''))) =
          ''_lumigo/'' @ name @ ''.''"
    by (rule substr_prefix)
  moreover have "lastIndexOf (''_lumigo/'' @ name @ ext) CHR ''.'' + 1 =
                   int (length (''_lumigo/'' @ name @ ''.''))"
    using i by (simp add: e)
  ultimately show ?thesis
    unfolding tracedHandler_def Let_def r by (simp add: e)
qed

lemma keptButHandler_refl: "keptButHandler N x x"
  by (simp add: keptButHandler_def)

lemma keptButHandler_trans:
  assumes "keptButHandler N x y" and "keptButHandler M y z"
  shows "keptButHandler (N \<union> M) x z"
proof -
  from assms have a: "(snd y)\<lparr>handler := handler (snd x)\<rparr> = snd x"
    and b: "(snd z)\<lparr>handler := handler (snd y)\<rparr> = snd y"
    by (simp_all add: keptButHandler_def)
  have "(snd z)\<lparr>handler := handler (snd x)\<rparr> =
          ((snd z)\<lparr>handler := handler (snd y)\<rparr>)\<lparr>handler := handler (snd x)\<rparr>"
    by simp
  also have "\<dots> = snd x" by (simp only: b a)
  finally show ?thesis
    using assms by (auto simp: keptButHandler_def)
qed

lemma onlyHandlers_refl: "onlyHandlers N s s"
  by (simp add: onlyHandlers_def list_all2_same keptButHandler_refl)

lemma onlyHandlers_trans:
  assumes "onlyHandlers N s s'" and "onlyHandlers M s' s''"
  shows "onlyHandlers (N \<union> M) s s''"
proof -
  from assms have a: "s'\<lparr>service_functions := service_functions s\<rparr> = s"
    and b: "s''\<lparr>service_functions := service_functions s'\<rparr> = s'"
    unfolding onlyHandlers_def by blast+
  have "s''\<lparr>service_functions := service_functions s\<rparr> =
          (s''\<lparr>service_functions := service_functions s'\<rparr>)\<lparr>service_functions := service_functions s\<rparr>"
    by simp
  also have "\<dots> = s" by (simp only: b a)
  finally have e: "s''\<lparr>service_functions := service_functions s\<rparr> = s" .
  have "list_all2 (keptButHandler N) (service_functions s) (service_functions s')"
    and "list_all2 (keptButHandler M) (service_functions s') (service_functions s'')"
    using assms unfolding onlyHandlers_def by blast+
  then have "list_all2 (keptButHandler (N \<union> M)) (service_functions s) (service_functions s'')"
    using keptButHandler_trans
    by (blast intro: list_all2_trans [where ?P1.0 = "keptButHandler N" and ?P2.0 = "keptButHandler M"])
  with e show ?thesis unfolding onlyHandlers_def by blast
qed

lemma onlyHandlers_setHandler:
  "onlyHandlers {n} s (s\<lparr>service_functions := setHandler n h (service_functions s)\<rparr>)"
  by (auto simp: onlyHandlers_def setHandler_def list_all2_map2 list_all2_same keptButHandler_def)

lemma surroundings_fields:
  assumes "surroundings p' = surroundings p"
  shows "servicePath p' = servicePath p" "cwd p' = cwd p" "SLS_DEBUG p' = SLS_DEBUG p"
    "options_function p' = options_function p" "packageJson p' = packageJson p"
    "fs_files p' = fs_files p" "execSync_output p' = execSync_output p"
  using assms by (simp_all add: surroundings_def)

lemma surroundings_log [simp]:
  "surroundings (log m p) = surroundings p"
  "surroundings (verboseLog m p) = surroundings p"
  "surroundings (verboseLogJson p fn) = surroundings p"
  "surroundings (outputFile f c p) = surroundings p"
  by (simp_all add: surroundings_def verboseLogJson_def)

lemma verboseLogJson_effects [simp]:
  "the_service (verboseLogJson p fn) = the_service p"
  "isNodeTracerInstalled_memo (verboseLogJson p fn) = isNodeTracerInstalled_memo p"
  "outputFile_calls (verboseLogJson p fn) = outputFile_calls p"
  "remove_calls (verboseLogJson p fn) = remove_calls p"
  "execSync_calls (verboseLogJson p fn) = execSync_calls p"
  by (simp_all add: verboseLogJson_def)

lemma foldl_verboseLogJson [simp]:
  "surroundings (foldl verboseLogJson p fns) = surroundings p"
  "the_service (foldl verboseLogJson p fns) = the_service p"
  "isNodeTracerInstalled_memo (foldl verboseLogJson p fns) = isNodeTracerInstalled_memo p"
  "outputFile_calls (foldl verboseLogJson p fns) = outputFile_calls p"
  "remove_calls (foldl verboseLogJson p fns) = remove_calls p"
  "execSync_calls (foldl verboseLogJson p fns) = execSync_calls p"
  by (induction fns arbitrary: p) simp_all

lemma getFunctionsToWrap_state [simp]:
  "surroundings (snd (getFunctionsToWrap p ns)) = surroundings p"
  "the_service (snd (getFunctionsToWrap p ns)) = the_service p"
  "isNodeTracerInstalled_memo (snd (getFunctionsToWrap p ns)) = isNodeTracerInstalled_memo p"
  "outputFile_calls (snd (getFunctionsToWrap p ns)) = outputFile_calls p"
  "remove_calls (snd (getFunctionsToWrap p ns)) = remove_calls p"
  "execSync_calls (snd (getFunctionsToWrap p ns)) = execSync_calls p"
  by (simp_all add: getFunctionsToWrap_def Let_def)

lemma getFunctionsToWrap_log_free:
  "fst (getFunctionsToWrap p' ns) = fst (getFunctionsToWrap p ns)"
  if "the_service p' = the_service p"
  using that by (simp add: getFunctionsToWrap_def Let_def)

subsection \<open>The tracer check and the package manager\<close>

lemma isNodeTracerInstalled_state [simp]:
  "fst (isNodeTracerInstalled p) = tracerInstalled p"
  "isNodeTracerInstalled_memo (snd (isNodeTracerInstalled p)) = Some (tracerInstalled p)"
  "surroundings (snd (isNodeTracerInstalled p)) = surroundings p"
  "the_service (snd (isNodeTracerInstalled p)) = the_service p"
  "outputFile_calls (snd (isNodeTracerInstalled p)) = outputFile_calls p"
  "remove_calls (snd (isNodeTracerInstalled p)) = remove_calls p"
  "execSync_calls (snd (isNodeTracerInstalled p)) = execSync_calls p"
  by (auto simp: isNodeTracerInstalled_def isLumigoNodejsInstalled_def tracerInstalled_def
      surroundings_def split: option.splits sum.splits)

lemma runCommand_state [simp]:
  "fst (runCommand cmd p) =
     (case execSync_output p cmd of None \<Rightarrow> Inl (ProcessError cmd) | Some out \<Rightarrow> Inr ())"
  "surroundings (snd (runCommand cmd p)) = surroundings p"
  "the_service (snd (runCommand cmd p)) = the_service p"
  "isNodeTracerInstalled_memo (snd (runCommand cmd p)) = isNodeTracerInstalled_memo p"
  "outputFile_calls (snd (runCommand cmd p)) = outputFile_calls p"
  "remove_calls (snd (runCommand cmd p)) = remove_calls p"
  "execSync_calls (snd (runCommand cmd p)) = execSync_calls p @ [cmd]"
  by (auto simp: runCommand_def execSync_def surroundings_def Let_def split: option.splits)

lemma get_nodePackageManager_cong:
  "the_service p' = the_service p \<Longrightarrow> get_nodePackageManager p' = get_nodePackageManager p"
  by (simp add: get_nodePackageManager_def)

lemma packageManagerCommand_cong:
  "the_service p' = the_service p \<Longrightarrow>
   packageManagerCommand p' a b = packageManagerCommand p a b"
  by (simp add: packageManagerCommand_def get_nodePackageManager_def)

lemma installLumigoNodejs_state:
  "fst (installLumigoNodejs p) =
     (if tracerInstalled p then Inr ()
      else case packageManagerCommand p ''npm install --no-save @lumigo/tracer@latest''
                  ''yarn add @lumigo/tracer@latest'' of
             None \<Rightarrow> Inl noPackageManager
           | Some cmd \<Rightarrow>
               (case execSync_output p cmd of None \<Rightarrow> Inl (ProcessError cmd) | Some out \<Rightarrow> Inr ()))"
  "execSync_calls (snd (installLumigoNodejs p)) =
     execSync_calls p @
     (if tracerInstalled p then []
      else case packageManagerCommand p ''npm install --no-save @lumigo/tracer@latest''
                  ''yarn add @lumigo/tracer@latest'' of
             None \<Rightarrow> [] | Some cmd \<Rightarrow> [cmd])"
  "surroundings (snd (installLumigoNodejs p)) = surroundings p"
  "the_service (snd (installLumigoNodejs p)) = the_service p"
  "isNodeTracerInstalled_memo (snd (installLumigoNodejs p)) = Some (tracerInstalled p)"
  "outputFile_calls (snd (installLumigoNodejs p)) = outputFile_calls p"
  "remove_calls (snd (installLumigoNodejs p)) = remove_calls p"
proof -
  obtain b p1 where i: "isNodeTracerInstalled p = (b, p1)" by (metis surj_pair)
  with isNodeTracerInstalled_state [of p]
  have f: "b = tracerInstalled p" "isNodeTracerInstalled_memo p1 = Some (tracerInstalled p)"
    "surroundings p1 = surroundings p" "the_service p1 = the_service p"
    "outputFile_calls p1 = outputFile_calls p" "remove_calls p1 = remove_calls p"
    "execSync_calls p1 = execSync_calls p"
    by simp_all
  note g = get_nodePackageManager_cong [of "log ''installing @lumigo/tracer...'' p1" p]
    surroundings_fields [OF f(3)]
  show "fst (installLumigoNodejs p) =
     (if tracerInstalled p then Inr ()
      else case packageManagerCommand p ''npm install --no-save @lumigo/tracer@latest''
                  ''yarn add @lumigo/tracer@latest'' of
             None \<Rightarrow> Inl noPackageManager
           | Some cmd \<Rightarrow>
               (case execSync_output p cmd of None \<Rightarrow> Inl (ProcessError cmd) | Some out \<Rightarrow> Inr ()))"
    using i f g by (simp add: installLumigoNodejs_def Let_def packageManagerCommand_def)
  show "execSync_calls (snd (installLumigoNodejs p)) =
     execSync_calls p @
     (if tracerInstalled p then []
      else case packageManagerCommand p ''npm install --no-save @lumigo/tracer@latest''
                  ''yarn add @lumigo/tracer@latest'' of
             None \<Rightarrow> [] | Some cmd \<Rightarrow> [cmd])"
    using i f g by (simp add: installLumigoNodejs_def Let_def packageManagerCommand_def)
  show "surroundings (snd (installLumigoNodejs p)) = surroundings p"
    using i f by (simp add: installLumigoNodejs_def Let_def)
  show "the_service (snd (installLumigoNodejs p)) = the_service p"
    using i f by (simp add: installLumigoNodejs_def Let_def)
  show "isNodeTracerInstalled_memo (snd (installLumigoNodejs p)) = Some (tracerInstalled p)"
    using i f by (simp add: installLumigoNodejs_def Let_def)
  show "outputFile_calls (snd (installLumigoNodejs p)) = outputFile_calls p"
    using i f by (simp add: installLumigoNodejs_def Let_def)
  show "remove_calls (snd (installLumigoNodejs p)) = remove_calls p"
    using i f by (simp add: installLumigoNodejs_def Let_def)
qed

lemma uninstallLumigoNodejs_state:
  "fst (uninstallLumigoNodejs p) =
     (if tracerInstalled p then Inr ()
      else case packageManagerCommand p ''npm uninstall @lumigo/tracer''
                  ''yarn remove @lumigo/tracer'' of
             None \<Rightarrow> Inl noPackageManager
           | Some cmd \<Rightarrow>
               (case execSync_output p cmd of None \<Rightarrow> Inl (ProcessError cmd) | Some out \<Rightarrow> Inr ()))"
  "execSync_calls (snd (uninstallLumigoNodejs p)) =
     execSync_calls p @
     (if tracerInstalled p then []
      else case packageManagerCommand p ''npm uninstall @lumigo/tracer''
                  ''yarn remove @lumigo/tracer'' of
             None \<Rightarrow> [] | Some cmd \<Rightarrow> [cmd])"
  "the_service (snd (uninstallLumigoNodejs p)) = the_service p"
  "outputFile_calls (snd (uninstallLumigoNodejs p)) = outputFile_calls p"
  "remove_calls (snd (uninstallLumigoNodejs p)) = remove_calls p"
proof -
  obtain b p1 where i: "isNodeTracerInstalled p = (b, p1)" by (metis surj_pair)
  with isNodeTracerInstalled_state [of p]
  have f: "b = tracerInstalled p" "isNodeTracerInstalled_memo p1 = Some (tracerInstalled p)"
    "surroundings p1 = surroundings p" "the_service p1 = the_service p"
    "outputFile_calls p1 = outputFile_calls p" "remove_calls p1 = remove_calls p"
    "execSync_calls p1 = execSync_calls p"
    by simp_all
  note g = get_nodePackageManager_cong [of "log ''uninstalling @lumigo/tracer...'' p1" p]
    surroundings_fields [OF f(3)]
  show "fst (uninstallLumigoNodejs p) =
     (if tracerInstalled p then Inr ()
      else case packageManagerCommand p ''npm uninstall @lumigo/tracer''
                  ''yarn remove @lumigo/tracer'' of
             None \<Rightarrow> Inl noPackageManager
           | Some cmd \<Rightarrow>
               (case execSync_output p cmd of None \<Rightarrow> Inl (ProcessError cmd) | Some out \<Rightarrow> Inr ()))"
    using i f g by (simp add: uninstallLumigoNodejs_def Let_def packageManagerCommand_def)
  show "execSync_calls (snd (uninstallLumigoNodejs p)) =
     execSync_calls p @
     (if tracerInstalled p then []
      else case packageManagerCommand p ''npm uninstall @lumigo/tracer''
                  ''yarn remove @lumigo/tracer'' of
             None \<Rightarrow> [] | Some cmd \<Rightarrow> [cmd])"
    using i f g by (simp add: uninstallLumigoNodejs_def Let_def packageManagerCommand_def)
  show "the_service (snd (uninstallLumigoNodejs p)) = the_service p"
    using i f by (simp add: uninstallLumigoNodejs_def Let_def)
  show "outputFile_calls (snd (uninstallLumigoNodejs p)) = outputFile_calls p"
    using i f by (simp add: uninstallLumigoNodejs_def Let_def)
  show "remove_calls (snd (uninstallLumigoNodejs p)) = remove_calls p"
    using i f by (simp add: uninstallLumigoNodejs_def Let_def)
qed

subsection \<open>The requirements check only reads and logs\<close>

lemma ensureTracerInstalled_state [simp]:
  "snd (ensureTracerInstalled sls f p) = p"
  by (simp add: ensureTracerInstalled_def split: option.splits fs_entry.splits)

lemma result_case:
  "(case m of (Inl e, q) \<Rightarrow> A e q | (Inr u, q) \<Rightarrow> B u q) =
   (case fst m of Inl e \<Rightarrow> A e (snd m) | Inr u \<Rightarrow> B u (snd m))"
  by (cases m; cases "fst m") auto

lemma ensureEachFunction_state [simp]:
  "snd (ensureEachFunction sls override fns p) = p"
  by (induction fns arbitrary: p) (simp_all add: Let_def result_case split: sum.splits)

lemma ensureLumigoPythonIsInstalled_state [simp]:
  "surroundings (snd (ensureLumigoPythonIsInstalled p)) = surroundings p"
  "the_service (snd (ensureLumigoPythonIsInstalled p)) = the_service p"
  "isNodeTracerInstalled_memo (snd (ensureLumigoPythonIsInstalled p)) = isNodeTracerInstalled_memo p"
  "outputFile_calls (snd (ensureLumigoPythonIsInstalled p)) = outputFile_calls p"
  "remove_calls (snd (ensureLumigoPythonIsInstalled p)) = remove_calls p"
  "execSync_calls (snd (ensureLumigoPythonIsInstalled p)) = execSync_calls p"
proof -
  let ?q = "log ''functions are packed individually, ensuring each function has a requirement.txt...''
              (log ''checking if lumigo_tracer is installed...'' p)"
  obtain family fns p3 where g: "getFunctionsToWrap ?q None = ((family, fns), p3)"
    by (metis surj_pair)
  with getFunctionsToWrap_state [of ?q None]
  have f: "surroundings p3 = surroundings p" "the_service p3 = the_service p"
    "isNodeTracerInstalled_memo p3 = isNodeTracerInstalled_memo p"
    "outputFile_calls p3 = outputFile_calls p" "remove_calls p3 = remove_calls p"
    "execSync_calls p3 = execSync_calls p"
    by simp_all
  show "surroundings (snd (ensureLumigoPythonIsInstalled p)) = surroundings p"
    using g f by (simp add: ensureLumigoPythonIsInstalled_def Let_def)
  show "the_service (snd (ensureLumigoPythonIsInstalled p)) = the_service p"
    using g f by (simp add: ensureLumigoPythonIsInstalled_def Let_def)
  show "isNodeTracerInstalled_memo (snd (ensureLumigoPythonIsInstalled p)) = isNodeTracerInstalled_memo p"
    using g f by (simp add: ensureLumigoPythonIsInstalled_def Let_def)
  show "outputFile_calls (snd (ensureLumigoPythonIsInstalled p)) = outputFile_calls p"
    using g f by (simp add: ensureLumigoPythonIsInstalled_def Let_def)
  show "remove_calls (snd (ensureLumigoPythonIsInstalled p)) = remove_calls p"
    using g f by (simp add: ensureLumigoPythonIsInstalled_def Let_def)
  show "execSync_calls (snd (ensureLumigoPythonIsInstalled p)) = execSync_calls p"
    using g f by (simp add: ensureLumigoPythonIsInstalled_def Let_def)
qed

subsection \<open>Writing the wrappers\<close>

lemma getNodeTracerParameters_Some:
  "getNodeTracerParameters (Some t) edge = Inr (tracerParameters t edge)"
  by (simp add: getNodeTracerParameters_def tracerParameters_def)

lemma folderPath_log [simp]:
  "folderPath (log m p) = folderPath p"
  "folderPath (verboseLog m p) = folderPath p"
  "folderPath (outputFile f c p) = folderPath p"
  by (simp_all add: folderPath_def)

lemma tracedHandler_log [simp]:
  "tracedHandler (log m p) = tracedHandler p"
  "tracedHandler (verboseLog m p) = tracedHandler p"
  "tracedHandler (outputFile f c p) = tracedHandler p"
  by (simp_all add: tracedHandler_def fun_eq_iff)

lemma createWrappedNodejsFunction_state [simp]:
  "fst (createWrappedNodejsFunction func (Some t) edge p) = Inr (nodejsHandler p func)"
  "outputFile_calls (snd (createWrappedNodejsFunction func (Some t) edge p)) =
     outputFile_calls p @ [nodejsArtifact p t edge func]"
  "surroundings (snd (createWrappedNodejsFunction func tok edge p)) = surroundings p"
  "the_service (snd (createWrappedNodejsFunction func tok edge p)) = the_service p"
  "isNodeTracerInstalled_memo (snd (createWrappedNodejsFunction func tok edge p)) =
     isNodeTracerInstalled_memo p"
  "remove_calls (snd (createWrappedNodejsFunction func tok edge p)) = remove_calls p"
  "execSync_calls (snd (createWrappedNodejsFunction func tok edge p)) = execSync_calls p"
  by (simp_all add: createWrappedNodejsFunction_def getNodeTracerParameters_Some Let_def
      nodejsHandler_def nodejsArtifact_def split: sum.splits)

lemma createWrappedPythonFunction_state [simp]:
  "fst (createWrappedPythonFunction func tok p) = Inr (pythonHandler p func)"
  "outputFile_calls (snd (createWrappedPythonFunction func tok p)) =
     outputFile_calls p @ [pythonArtifact p tok func]"
  "surroundings (snd (createWrappedPythonFunction func tok p)) = surroundings p"
  "the_service (snd (createWrappedPythonFunction func tok p)) = the_service p"
  "isNodeTracerInstalled_memo (snd (createWrappedPythonFunction func tok p)) =
     isNodeTracerInstalled_memo p"
  "remove_calls (snd (createWrappedPythonFunction func tok p)) = remove_calls p"
  "execSync_calls (snd (createWrappedPythonFunction func tok p)) = execSync_calls p"
  by (simp_all add: createWrappedPythonFunction_def Let_def pythonHandler_def pythonArtifact_def)

lemma replaceHandler_state [simp]:
  "the_service (replaceHandler func h p) =
     (the_service p)\<lparr>service_functions := setHandler (localName func) h (service_functions (the_service p))\<rparr>"
  "surroundings (replaceHandler func h p) = surroundings p"
  "isNodeTracerInstalled_memo (replaceHandler func h p) = isNodeTracerInstalled_memo p"
  "outputFile_calls (replaceHandler func h p) = outputFile_calls p"
  "remove_calls (replaceHandler func h p) = remove_calls p"
  "execSync_calls (replaceHandler func h p) = execSync_calls p"
  by (simp_all add: replaceHandler_def Let_def surroundings_def)

lemma nodejsArtifact_cong:
  "surroundings p' = surroundings p \<Longrightarrow> nodejsArtifact p' = nodejsArtifact p"
  by (simp add: nodejsArtifact_def fun_eq_iff folderPath_def surroundings_def)

lemma nodejsHandler_cong:
  "surroundings p' = surroundings p \<Longrightarrow> nodejsHandler p' = nodejsHandler p"
  by (simp add: nodejsHandler_def fun_eq_iff folderPath_def tracedHandler_def surroundings_def)

lemma pythonArtifact_cong:
  "surroundings p' = surroundings p \<Longrightarrow> pythonArtifact p' = pythonArtifact p"
  by (simp add: pythonArtifact_def fun_eq_iff folderPath_def surroundings_def)

lemma pythonHandler_cong:
  "surroundings p' = surroundings p \<Longrightarrow> pythonHandler p' = pythonHandler p"
  by (simp add: pythonHandler_def fun_eq_iff folderPath_def tracedHandler_def surroundings_def)

lemma setHandlers_simps [simp]:
  "setHandlers H [] fs = fs"
  "setHandlers H (f # funcs) fs = setHandlers H funcs (setHandler (localName f) (H f) fs)"
  by (simp_all add: setHandlers_def)

lemma wrapNodejsFunctions_state:
  "fst (wrapNodejsFunctions funcs (Some t) edge p) = Inr () \<and>
   surroundings (snd (wrapNodejsFunctions funcs (Some t) edge p)) = surroundings p \<and>
   isNodeTracerInstalled_memo (snd (wrapNodejsFunctions funcs (Some t) edge p)) =
     isNodeTracerInstalled_memo p \<and>
   remove_calls (snd (wrapNodejsFunctions funcs (Some t) edge p)) = remove_calls p \<and>
   execSync_calls (snd (wrapNodejsFunctions funcs (Some t) edge p)) = execSync_calls p \<and>
   outputFile_calls (snd (wrapNodejsFunctions funcs (Some t) edge p)) =
     outputFile_calls p @ map (nodejsArtifact p t edge) funcs \<and>
   the_service (snd (wrapNodejsFunctions funcs (Some t) edge p)) =
     (the_service p)\<lparr>service_functions :=
        setHandlers (nodejsHandler p) funcs (service_functions (the_service p))\<rparr>"
proof (induction funcs arbitrary: p)
  case Nil
  then show ?case by simp
next
  case (Cons func funcs)
  let ?q = "replaceHandler func (nodejsHandler p func)
              (snd (createWrappedNodejsFunction func (Some t) edge p))"
  have s: "surroundings ?q = surroundings p" by simp
  have w: "wrapNodejsFunctions (func # funcs) (Some t) edge p =
             wrapNodejsFunctions funcs (Some t) edge ?q"
    by (simp add: result_case)
  show ?case
    unfolding w
    using Cons.IH [of ?q]
    by (simp add: nodejsArtifact_cong [OF s] nodejsHandler_cong [OF s])
qed

lemma wrapPythonFunctions_state:
  "fst (wrapPythonFunctions funcs tok p) = Inr () \<and>
   surroundings (snd (wrapPythonFunctions funcs tok p)) = surroundings p \<and>
   isNodeTracerInstalled_memo (snd (wrapPythonFunctions funcs tok p)) =
     isNodeTracerInstalled_memo p \<and>
   remove_calls (snd (wrapPythonFunctions funcs tok p)) = remove_calls p \<and>
   execSync_calls (snd (wrapPythonFunctions funcs tok p)) = execSync_calls p \<and>
   outputFile_calls (snd (wrapPythonFunctions funcs tok p)) =
     outputFile_calls p @ map (pythonArtifact p tok) funcs \<and>
   the_service (snd (wrapPythonFunctions funcs tok p)) =
     (the_service p)\<lparr>service_functions :=
        setHandlers (pythonHandler p) funcs (service_functions (the_service p))\<rparr>"
proof (induction funcs arbitrary: p)
  case Nil
  then show ?case by simp
next
  case (Cons func funcs)
  let ?q = "replaceHandler func (pythonHandler p func)
              (snd (createWrappedPythonFunction func tok p))"
  have s: "surroundings ?q = surroundings p" by simp
  have w: "wrapPythonFunctions (func # funcs) tok p = wrapPythonFunctions funcs tok ?q"
    by (simp add: result_case)
  show ?case
    unfolding w
    using Cons.IH [of ?q]
    by (simp add: pythonArtifact_cong [OF s] pythonHandler_cong [OF s])
qed

lemma onlyHandlers_setHandlers:
  "onlyHandlers (localName ` set funcs) s
     (s\<lparr>service_functions := setHandlers H funcs (service_functions s)\<rparr>)"
proof (induction funcs arbitrary: s)
  case Nil
  then show ?case by (simp add: onlyHandlers_refl)
next
  case (Cons f funcs)
  let ?s1 = "s\<lparr>service_functions := setHandler (localName f) (H f) (service_functions s)\<rparr>"
  have "onlyHandlers ({localName f} \<union> localName ` set funcs) s
          (?s1\<lparr>service_functions := setHandlers H funcs (service_functions ?s1)\<rparr>)"
    by (rule onlyHandlers_trans [OF onlyHandlers_setHandler Cons.IH])
  then show ?case by simp
qed

lemma includeLumigo_state [simp]:
  "surroundings (includeLumigo p) = surroundings p"
  "isNodeTracerInstalled_memo (includeLumigo p) = isNodeTracerInstalled_memo p"
  "outputFile_calls (includeLumigo p) = outputFile_calls p"
  "remove_calls (includeLumigo p) = remove_calls p"
  "execSync_calls (includeLumigo p) = execSync_calls p"
  "service_functions (the_service (includeLumigo p)) = service_functions (the_service p)"
  by (simp_all add: includeLumigo_def surroundings_def split: option.splits)

lemma includeLumigo_service:
  "the_service (includeLumigo p) = (the_service p)\<lparr>package := includedPackage (package (the_service p))\<rparr>"
  by (simp add: includeLumigo_def includedPackage_def split: option.splits)

lemma wrapPass_eq:
  "(case family of
      Nodejs \<Rightarrow>
        (case installLumigoNodejs p3 of
           (Inl e, p4) \<Rightarrow> (Inl e, p4)
         | (Inr u, p4) \<Rightarrow> wrapNodejsFunctions fns tok edge p4)
    | Python \<Rightarrow>
        (case ensureLumigoPythonIsInstalled p3 of
           (Inl e, p4) \<Rightarrow> (Inl e, p4)
         | (Inr u, p4) \<Rightarrow> wrapPythonFunctions fns tok p4)
    | Unsupported \<Rightarrow> (Inr (), p3)) = wrapPass family fns tok edge p3"
  by (cases family) (simp_all add: wrapPass_def result_case)

lemma wrapFunctions_unfold:
  "wrapFunctions names p =
     (let family = fst (fst (getFunctionsToWrap p names));
          fns = snd (fst (getFunctionsToWrap p names));
          p3 = foldl verboseLogJson
                 (log (''there are '' @ numberToString (length fns) @ '' function(s) to wrap...'')
                    (snd (getFunctionsToWrap p names))) fns;
          tok = token (custom_lumigo (the_service p));
          edge = edgeHost (custom_lumigo (the_service p))
      in if fns = [] then (Inr (), p3)
         else if tok = None then (Inl tokenMissing, p3)
         else (case fst (wrapPass family fns tok edge p3) of
                 Inl e \<Rightarrow> (Inl e, snd (wrapPass family fns tok edge p3))
               | Inr u \<Rightarrow> (Inr (), includeLumigo (snd (wrapPass family fns tok edge p3)))))"
proof -
  obtain family fns p1 where g: "getFunctionsToWrap p names = ((family, fns), p1)"
    by (metis surj_pair)
  from g getFunctionsToWrap_state(2) [of p names] have s: "the_service p1 = the_service p"
    by simp
  show ?thesis
    unfolding wrapFunctions_def g wrapPass_eq
    by (simp add: Let_def s result_case)
qed

lemma wrapPass_service:
  assumes "tok = Some t"
  shows "onlyHandlers (localName ` set fns) (the_service p3)
           (the_service (snd (wrapPass family fns tok edge p3)))"
proof (cases family)
  case Nodejs
  let ?m = "installLumigoNodejs p3"
  show ?thesis
  proof (cases "fst ?m")
    case (Inl e)
    then show ?thesis
      by (simp add: wrapPass_def Nodejs installLumigoNodejs_state(4) onlyHandlers_refl)
  next
    case (Inr u)
    have "the_service (snd (wrapNodejsFunctions fns (Some t) edge (snd ?m))) =
            (the_service p3)\<lparr>service_functions :=
               setHandlers (nodejsHandler (snd ?m)) fns (service_functions (the_service p3))\<rparr>"
      using wrapNodejsFunctions_state [of fns t edge "snd ?m"]
      by (simp add: installLumigoNodejs_state(4))
    then show ?thesis
      using Inr assms by (simp add: wrapPass_def Nodejs onlyHandlers_setHandlers)
  qed
next
  case Python
  let ?m = "ensureLumigoPythonIsInstalled p3"
  show ?thesis
  proof (cases "fst ?m")
    case (Inl e)
    then show ?thesis
      by (simp add: wrapPass_def Python onlyHandlers_refl)
  next
    case (Inr u)
    have "the_service (snd (wrapPythonFunctions fns tok (snd ?m))) =
            (the_service p3)\<lparr>service_functions :=
               setHandlers (pythonHandler (snd ?m)) fns (service_functions (the_service p3))\<rparr>"
      using wrapPythonFunctions_state [of fns tok "snd ?m"] by simp
    then show ?thesis
      using Inr by (simp add: wrapPass_def Python onlyHandlers_setHandlers)
  qed
next
  case Unsupported
  then show ?thesis by (simp add: wrapPass_def onlyHandlers_refl)
qed

lemma onlyHandlers_package:
  assumes "onlyHandlers N s s'"
  shows "package s' = package s" and "s'\<lparr>package := package s\<rparr> = s'"
proof -
  from assms have a: "s'\<lparr>service_functions := service_functions s\<rparr> = s"
    unfolding onlyHandlers_def by blast
  from arg_cong [OF a, of package] show p: "package s' = package s" by simp
  have "s'\<lparr>package := package s'\<rparr> = s'" by simp
  then show "s'\<lparr>package := package s\<rparr> = s'" by (simp only: p)
qed

lemma frame_failed:
  assumes "onlyHandlers N s s'"
  shows "onlyHandlers N s (s'\<lparr>package := package s\<rparr>) \<and> package s' = package s"
  unfolding onlyHandlers_package(2) [OF assms]
  by (rule conjI [OF assms onlyHandlers_package(1) [OF assms]])

lemma frame_completed:
  assumes "onlyHandlers N s s'"
  shows "onlyHandlers N s (s'\<lparr>package := includedPackage (package s'), package := package s\<rparr>) \<and>
         package (s'\<lparr>package := includedPackage (package s')\<rparr>) = includedPackage (package s)"
proof -
  have e: "s'\<lparr>package := includedPackage (package s'), package := package s\<rparr> =
          s'\<lparr>package := package s\<rparr>"
    by simp
  have "package (s'\<lparr>package := includedPackage (package s')\<rparr>) = includedPackage (package s')"
    by simp
  then have "package (s'\<lparr>package := includedPackage (package s')\<rparr>) = includedPackage (package s)"
    by (simp only: onlyHandlers_package(1) [OF assms])
  with frame_failed [OF assms] show ?thesis
    unfolding e by blast
qed

section \<open>Parsing facts\<close>

lemma basename_last_segment:
  assumes "CHR ''/'' \<notin> set f"
  shows "basename (m @ CHR ''.'' # f) =
           rev (takeWhile (\<lambda>c. c \<noteq> CHR ''/'') (rev m)) @ CHR ''.'' # f"
proof -
  have d: "dropWhile (\<lambda>c. c = CHR ''/'') (rev f @ CHR ''.'' # rev m) = rev f @ CHR ''.'' # rev m"
    using assms by (cases "rev f") (auto simp: rev_eq_Cons_iff)
  have "takeWhile (\<lambda>c. c \<noteq> CHR ''/'') (rev f @ CHR ''.'' # rev m) =
          rev f @ CHR ''.'' # takeWhile (\<lambda>c. c \<noteq> CHR ''/'') (rev m)"
    using assms by (subst takeWhile_append2) auto
  with d show ?thesis
    by (simp add: basename_def)
qed

lemma substrFrom_after: "substrFrom (a @ c # b) (int (length a) + 1) = b"
proof -
  have "nat (int (length a) + 1) = Suc (length a)" by simp
  then show ?thesis
    by (simp add: substrFrom_def substrStart_def)
qed

lemma handlerFuncName_after_last_dot:
  assumes "CHR ''.'' \<notin> set f" and "CHR ''/'' \<notin> set f"
  shows "handlerFuncName (m @ CHR ''.'' # f) = f"
proof -
  let ?b = "rev (takeWhile (\<lambda>c. c \<noteq> CHR ''/'') (rev m))"
  have "lastIndexOf (?b @ CHR ''.'' # f) CHR ''.'' = int (length ?b)"
    by (rule lastIndexOf_last [OF assms(1)])
  then show ?thesis
    by (simp add: handlerFuncName_def basename_last_segment [OF assms(2)] Let_def
        substrFrom_after [of ?b, simplified])
qed

lemma handlerModulePath_before_last_dot:
  assumes "CHR ''.'' \<notin> set f"
  shows "handlerModulePath (m @ CHR ''.'' # f) = m"
  using lastIndexOf_last [OF assms, of m]
  by (simp add: handlerModulePath_def substr_def substrStart_def)

lemma handler_without_dot:
  assumes "CHR ''.'' \<notin> set h"
  shows "handlerModulePath h = [] \<and> handlerFuncName h = basename h"
proof -
  have "set (basename h) \<subseteq> set h"
    unfolding basename_def
    by (metis set_rev set_takeWhileD set_dropWhileD subsetI)
  with assms have "CHR ''.'' \<notin> set (basename h)" by blast
  then show ?thesis
    using assms
    by (simp add: handlerModulePath_def handlerFuncName_def lastIndexOf_def substr_def
        substrFrom_def substrStart_def Let_def)
qed

lemma sublist_basename: "sublist (basename h) h"
proof -
  have "sublist (takeWhile (\<lambda>c. c \<noteq> CHR ''/'') (dropWhile (\<lambda>c. c = CHR ''/'') (rev h))) (rev h)"
    by (rule sublist_order.order_trans [OF sublist_takeWhile sublist_dropWhile])
  then show ?thesis
    by (simp add: basename_def sublist_rev_left)
qed

lemma sublist_handlerFuncName: "sublist (handlerFuncName h) h"
  unfolding handlerFuncName_def Let_def substrFrom_def
  by (rule sublist_order.order_trans [OF sublist_drop sublist_basename])

lemma sublist_handlerModulePath: "sublist (handlerModulePath h) h"
  unfolding handlerModulePath_def substr_def
  by (rule sublist_order.order_trans [OF sublist_take sublist_drop])

lemma join_Cons_char: "join ((x # y) # ys) sep = x # join (y # ys) sep"
  by (cases ys) simp_all

lemma join_Nil_first: "ys \<noteq> [] \<Longrightarrow> join ([] # ys) sep = sep @ join ys sep"
  by (cases ys) simp_all

lemma replace_all_separators:
  "join (split s CHR ''/'') ''.'' = map (\<lambda>c. if c = CHR ''/'' then CHR ''.'' else c) s"
proof (induction s)
  case Nil
  then show ?case by simp
next
  case (Cons x s)
  obtain y ys where y: "split s CHR ''/'' = y # ys"
    using split_nonempty [of s "CHR ''/''"] by (cases "split s CHR ''/''") auto
  with Cons show ?case
    by (auto simp: join_Cons_char join_Nil_first)
qed

section \<open>Facts about the generated text\<close>

lemma prefix_without:
  assumes "prefix w (xs @ c # ys)" and "c \<notin> set w"
  shows "prefix w xs"
proof -
  from assms(1) obtain zs where z: "xs @ c # ys = w @ zs" by (auto simp: prefix_def)
  then show ?thesis
  proof (cases "length w \<le> length xs")
    case True
    with z show ?thesis
      by (metis append_eq_append_conv_if prefix_def append_take_drop_id)
  next
    case False
    then have "length xs < length w" by simp
    with z have "w ! length xs = c"
      by (metis nth_append nth_append_length)
    with \<open>length xs < length w\<close> assms(2) show ?thesis
      by (metis nth_mem)
  qed
qed

lemma sublist_without:
  assumes "sublist w (xs @ c # ys)" and "c \<notin> set w"
  shows "sublist w xs \<or> sublist w ys"
  using assms
proof (induction xs)
  case Nil
  then show ?case
    by (cases w) (auto simp: sublist_Cons_right)
next
  case (Cons x xs)
  from Cons.prems(1) have "prefix w ((x # xs) @ c # ys) \<or> sublist w (xs @ c # ys)"
    by (simp add: sublist_Cons_right)
  then show ?case
  proof
    assume "prefix w ((x # xs) @ c # ys)"
    from prefix_without [OF this Cons.prems(2)] show ?thesis by blast
  next
    assume "sublist w (xs @ c # ys)"
    with Cons.IH Cons.prems(2) show ?thesis
      by (auto simp: sublist_Cons_right)
  qed
qed

lemma no_edgeHost: "CHR ''H'' \<notin> set X \<Longrightarrow> \<not> sublist ''edgeHost'' X"
  using set_mono_sublist [of "''edgeHost''" X] by auto

lemma nodejsWrapper_without_edgeHost:
  assumes t: "\<not> sublist ''edgeHost'' t"
    and m: "\<not> sublist ''edgeHost'' m"
    and f: "\<not> sublist ''edgeHost'' f"
  shows "\<not> sublist ''edgeHost'' (nodejsWrapper (''token: '' @ sq @ t @ sq) m f)"
proof
  define X0 where
    \<open>X0 = ''\<newline>const tracer = require("@lumigo/tracer")({\<newline>'' @ [CHR 0x09] @ ''token: ''\<close>
  define X1 where "X1 = ''\<newline>});\<newline>const handler = require('..''"
  define X2 where "X2 = '')''"
  define X3 where "X3 = ''\<newline>\<newline>module.exports''"
  define X4 where "X4 = ''= tracer.trace(handler);\<newline>    ''"
  define R4 where "R4 = f @ CHR '' '' # X4"
  define R3 where "R3 = f @ CHR '';'' # X3 @ CHR ''.'' # R4"
  define R2 where "R2 = m @ CHR 0x27 # X2 @ CHR ''.'' # R3"
  define R1 where "R1 = t @ CHR 0x27 # X1 @ CHR ''/'' # R2"
  have c: "nodejsWrapper (''token: '' @ sq @ t @ sq) m f = X0 @ CHR 0x27 # R1"
    by (simp add: nodejsWrapper_def sq_def X0_def X1_def X2_def X3_def X4_def
        R1_def R2_def R3_def R4_def)
  have x: "\<not> sublist ''edgeHost'' X0" "\<not> sublist ''edgeHost'' X1" "\<not> sublist ''edgeHost'' X2"
    "\<not> sublist ''edgeHost'' X3" "\<not> sublist ''edgeHost'' X4"
    by (rule no_edgeHost, simp add: X0_def X1_def X2_def X3_def X4_def)+
  assume "sublist ''edgeHost'' (nodejsWrapper (''token: '' @ sq @ t @ sq) m f)"
  then have "sublist ''edgeHost'' (X0 @ CHR 0x27 # R1)" by (simp only: c)
  from sublist_without [OF this] x(1) have "sublist ''edgeHost'' R1" by auto
  then have "sublist ''edgeHost'' (t @ CHR 0x27 # (X1 @ CHR ''/'' # R2))" by (simp add: R1_def)
  from sublist_without [OF this] t have "sublist ''edgeHost'' (X1 @ CHR ''/'' # R2)" by auto
  from sublist_without [OF this] x(2) have "sublist ''edgeHost'' R2" by auto
  then have "sublist ''edgeHost'' (m @ CHR 0x27 # (X2 @ CHR ''.'' # R3))" by (simp add: R2_def)
  from sublist_without [OF this] m have "sublist ''edgeHost'' (X2 @ CHR ''.'' # R3)" by auto
  from sublist_without [OF this] x(3) have "sublist ''edgeHost'' R3" by auto
  then have "sublist ''edgeHost'' (f @ CHR '';'' # (X3 @ CHR ''.'' # R4))"
    by (simp add: R3_def)
  from sublist_without [OF this] f have "sublist ''edgeHost'' (X3 @ CHR ''.'' # R4)" by auto
  from sublist_without [OF this] x(4) have "sublist ''edgeHost'' R4" by auto
  then have "sublist ''edgeHost'' (f @ CHR '' '' # X4)" by (simp add: R4_def)
  from sublist_without [OF this] f x(5) show False by auto
qed

lemma tracerParameters_cases:
  "tracerParameters t None = ''token: '' @ sq @ t @ sq"
  "tracerParameters t (Some []) = ''token: '' @ sq @ t @ sq"
  "e \<noteq> [] \<Longrightarrow>
   tracerParameters t (Some e) = ''token: '' @ sq @ t @ sq @ '','' @ ''edgeHost: '' @ sq @ e @ sq"
  by (simp_all add: tracerParameters_def)

lemma nodejsWrapper_includes_token:
  "includes_str (nodejsWrapper (tracerParameters t edge) m f) (''token: '' @ sq @ t @ sq)"
proof -
  obtain r where r: "tracerParameters t edge = (''token: '' @ sq @ t @ sq) @ r"
    by (cases edge; cases "the edge = []") (auto simp: tracerParameters_def)
  have "\<exists>pre post. nodejsWrapper (tracerParameters t edge) m f =
          pre @ (''token: '' @ sq @ t @ sq) @ post"
    unfolding nodejsWrapper_def r by (metis append.assoc)
  then show ?thesis
    unfolding includes_str_def sublist_def by blast
qed

lemma nodejsWrapper_includes_edgeHost:
  assumes "e \<noteq> []"
  shows "includes_str (nodejsWrapper (tracerParameters t (Some e)) m f)
           (''edgeHost: '' @ sq @ e @ sq)"
proof -
  have r: "tracerParameters t (Some e) =
             (''token: '' @ sq @ t @ sq @ '','') @ (''edgeHost: '' @ sq @ e @ sq)"
    using assms by (simp add: tracerParameters_def)
  have "\<exists>pre post. nodejsWrapper (tracerParameters t (Some e)) m f =
          pre @ (''edgeHost: '' @ sq @ e @ sq) @ post"
    unfolding nodejsWrapper_def r by (metis append.assoc)
  then show ?thesis
    unfolding includes_str_def sublist_def by blast
qed

lemma written_nodejs_content:
  "snd (last (outputFile_calls (snd (createWrappedNodejsFunction func (Some t) edge p)))) =
     nodejsWrapper (tracerParameters t edge) (handlerModulePath (handler (decl func)))
       (handlerFuncName (handler (decl func)))"
  by (simp add: nodejsArtifact_def)

lemma pythonWrapper_includes_import:
  "includes_str (pythonWrapper tk m f) (''from '' @ m @ '' import '' @ f @ '' as userHandler'')"
proof -
  have "\<exists>pre post. pythonWrapper tk m f =
          pre @ (''from '' @ m @ '' import '' @ f @ '' as userHandler'') @ post"
    unfolding pythonWrapper_def
    by (rule exI [of _ "''\<newline>from lumigo_tracer import lumigo_tracer\<newline>''"],
        rule exI [of _ "''\<newline>\<newline>@lumigo_tracer(token='' @ sq @ tk @ sq @
     '')\<newline>def '' @ f @
     ''(event, context):\<newline>  return userHandler(event, context)\<newline>    ''"]) simp
  then show ?thesis
    unfolding includes_str_def sublist_def by blast
qed

section \<open>A whole pass\<close>

lemma toLowerCase_npm: "toLowerCase ''npm'' = ''npm''"
  by (simp add: toLowerCase_def)

lemma tracerInstalled_cong:
  "isNodeTracerInstalled_memo p' = isNodeTracerInstalled_memo p \<Longrightarrow>
   surroundings p' = surroundings p \<Longrightarrow> tracerInstalled p' = tracerInstalled p"
  by (simp add: tracerInstalled_def surroundings_def split: option.splits)

lemma wrapFunctions_nodejs:
  assumes fam: "fst (fst (getFunctionsToWrap p names)) = Nodejs"
    and ne: "snd (fst (getFunctionsToWrap p names)) \<noteq> []"
    and tok: "token (custom_lumigo (the_service p)) = Some t"
    and inst: "\<not> tracerInstalled p"
    and cmd: "packageManagerCommand p ''npm install --no-save @lumigo/tracer@latest''
                ''yarn add @lumigo/tracer@latest'' = Some cmd"
    and out: "execSync_output p cmd = Some out"
  shows "fst (wrapFunctions names p) = Inr () \<and>
         execSync_calls (snd (wrapFunctions names p)) = execSync_calls p @ [cmd] \<and>
         outputFile_calls (snd (wrapFunctions names p)) =
           outputFile_calls p @
           map (nodejsArtifact p t (edgeHost (custom_lumigo (the_service p))))
             (snd (fst (getFunctionsToWrap p names))) \<and>
         service_functions (the_service (snd (wrapFunctions names p))) =
           setHandlers (nodejsHandler p) (snd (fst (getFunctionsToWrap p names)))
             (service_functions (the_service p))"
proof -
  let ?fns = "snd (fst (getFunctionsToWrap p names))"
  let ?edge = "edgeHost (custom_lumigo (the_service p))"
  define p3 where "p3 = foldl verboseLogJson
                 (log (''there are '' @ numberToString (length ?fns) @ '' function(s) to wrap...'')
                    (snd (getFunctionsToWrap p names))) ?fns"
  define m where "m = installLumigoNodejs p3"
  define w where "w = wrapNodejsFunctions ?fns (Some t) ?edge (snd m)"
  have s3: "the_service p3 = the_service p" "surroundings p3 = surroundings p"
    "isNodeTracerInstalled_memo p3 = isNodeTracerInstalled_memo p"
    "execSync_calls p3 = execSync_calls p" "outputFile_calls p3 = outputFile_calls p"
    by (simp_all add: p3_def)
  have i3: "\<not> tracerInstalled p3"
    using inst tracerInstalled_cong [OF s3(3) s3(2)] by simp
  have c3: "packageManagerCommand p3 ''npm install --no-save @lumigo/tracer@latest''
                ''yarn add @lumigo/tracer@latest'' = Some cmd"
    using cmd packageManagerCommand_cong [OF s3(1)] by simp
  have o3: "execSync_output p3 cmd = Some out"
    using out surroundings_fields(7) [OF s3(2)] by simp
  have m: "fst m = Inr ()" "execSync_calls (snd m) = execSync_calls p @ [cmd]"
    "surroundings (snd m) = surroundings p" "the_service (snd m) = the_service p"
    "outputFile_calls (snd m) = outputFile_calls p"
    using i3 c3 o3 s3 by (simp_all add: m_def installLumigoNodejs_state)
  have pass: "wrapPass Nodejs ?fns (Some t) ?edge p3 = w"
    using m(1) by (simp add: wrapPass_def w_def m_def)
  have w: "fst w = Inr ()" "execSync_calls (snd w) = execSync_calls p @ [cmd]"
    "outputFile_calls (snd w) = outputFile_calls p @ map (nodejsArtifact p t ?edge) ?fns"
    "the_service (snd w) =
       (the_service p)\<lparr>service_functions := setHandlers (nodejsHandler p) ?fns (service_functions (the_service p))\<rparr>"
    using wrapNodejsFunctions_state [of ?fns t ?edge "snd m"] m
    by (simp_all add: w_def nodejsArtifact_cong [OF m(3)] nodejsHandler_cong [OF m(3)])
  have "wrapFunctions names p = (Inr (), includeLumigo (snd w))"
    using fam ne tok pass w(1) by (simp add: wrapFunctions_unfold Let_def p3_def)
  then show ?thesis
    using w by simp
qed

lemma nodejsHandler_plain:
  assumes "isAbsolute (servicePath p)" and "CHR ''/'' \<notin> set (localName f)"
  shows "nodejsHandler p f = ''_lumigo/'' @ localName f @ ''.'' @ handlerFuncName (handler (decl f))"
  unfolding nodejsHandler_def
  by (rule tracedHandler_artifact [OF assms]) simp

lemma pythonHandler_plain:
  assumes "isAbsolute (servicePath p)" and "CHR ''/'' \<notin> set (localName f)"
  shows "pythonHandler p f = ''_lumigo/'' @ localName f @ ''.'' @ handlerFuncName (handler (decl f))"
  unfolding pythonHandler_def
  by (rule tracedHandler_artifact [OF assms]) simp

lemma map_of_setHandler:
  "map_of (setHandler n h fs) k =
     (if k = n then map_option (\<lambda>d. d\<lparr>handler := h\<rparr>) (map_of fs k) else map_of fs k)"
  by (induction fs) (auto simp: setHandler_def)

lemma map_of_setHandlers_other:
  "k \<notin> localName ` set fns \<Longrightarrow> map_of (setHandlers H fns fs) k = map_of fs k"
  by (induction fns arbitrary: fs) (auto simp: map_of_setHandler)

lemma map_of_setHandlers:
  "distinct (map localName fns) \<Longrightarrow> f \<in> set fns \<Longrightarrow>
   map_of (setHandlers H fns fs) (localName f) =
     map_option (\<lambda>d. d\<lparr>handler := H f\<rparr>) (map_of fs (localName f))"
proof (induction fns arbitrary: fs)
  case Nil
  then show ?case by simp
next
  case (Cons g fns)
  show ?case
  proof (cases "f = g")
    case True
    with Cons.prems have "localName f \<notin> localName ` set fns" by auto
    from map_of_setHandlers_other [OF this] True show ?thesis
      by (simp add: map_of_setHandler)
  next
    case False
    with Cons.prems have f: "f \<in> set fns" and d: "distinct (map localName fns)"
      and g: "localName g \<notin> localName ` set fns"
      by auto
    from f g have "localName f \<noteq> localName g" by (metis imageI)
    with Cons.IH [OF d f] show ?thesis
      by (simp add: map_of_setHandler)
  qed
qed

lemma fixture_eligible_nodejs:
  "fst (getFunctionsToWrap (fixture_plugin ''nodejs12.x'' cfg fixture_functions) None) =
     (Nodejs, map (\<lambda>(n, d). \<lparr>decl = d, localName = n\<rparr>) fixture_functions)"
  by (simp add: getFunctionsToWrap_def Let_def fixture_plugin_def fixture_functions_def
      getAllFunctions_def getFunction_def startsWith_def List.map_filter_simps)

lemma fixture_install:
  "nodePackageManager cfg = None \<Longrightarrow>
   \<not> tracerInstalled (fixture_plugin rt cfg fs) \<and>
   packageManagerCommand (fixture_plugin rt cfg fs) ''npm install --no-save @lumigo/tracer@latest''
     ''yarn add @lumigo/tracer@latest'' = Some ''npm install --no-save @lumigo/tracer@latest'' \<and>
   execSync_output (fixture_plugin rt cfg fs) ''npm install --no-save @lumigo/tracer@latest'' = Some []"
  by (simp add: tracerInstalled_def packageManagerCommand_def get_nodePackageManager_def
      toLowerCase_npm fixture_plugin_def)

lemma cleanFolder_state [simp]:
  "remove_calls (cleanFolder p) = remove_calls p @ [folderPath p]"
  "surroundings (cleanFolder p) = surroundings p"
  "the_service (cleanFolder p) = the_service p"
  "isNodeTracerInstalled_memo (cleanFolder p) = isNodeTracerInstalled_memo p"
  "outputFile_calls (cleanFolder p) = outputFile_calls p"
  "execSync_calls (cleanFolder p) = execSync_calls p"
  by (simp_all add: cleanFolder_def Let_def surroundings_def)

lemma folderPath_getFunctionsToWrap [simp]:
  "folderPath (snd (getFunctionsToWrap p ns)) = folderPath p"
  by (simp add: getFunctionsToWrap_def Let_def)

lemma packageManagerCommand_unfold:
  "(case packageManagerCommand p a b of None \<Rightarrow> [] | Some cmd \<Rightarrow> [cmd]) =
     (if get_nodePackageManager p = ''npm'' then [a]
      else if get_nodePackageManager p = ''yarn'' then [b] else [])"
  by (simp add: packageManagerCommand_def)

lemma fresh_npm_install:
  assumes "isNodeTracerInstalled_memo p = None" and "packageJson p = Inr []"
    and "nodePackageManager (custom_lumigo (the_service p)) = None"
    and "execSync_output p ''npm install --no-save @lumigo/tracer@latest'' = Some []"
  shows "\<not> tracerInstalled p"
    and "packageManagerCommand p ''npm install --no-save @lumigo/tracer@latest''
           ''yarn add @lumigo/tracer@latest'' = Some ''npm install --no-save @lumigo/tracer@latest''"
  using assms
  by (simp_all add: tracerInstalled_def packageManagerCommand_def get_nodePackageManager_def
      toLowerCase_npm)

lemma fixture_eligible_hello:
  assumes "the_service p = the_service (fixture_plugin ''nodejs12.x'' cfg fixture_functions)"
  shows "fst (getFunctionsToWrap p (Some [''hello''])) =
           (Nodejs, [\<lparr>decl = fixture_decl ''hello.world'', localName = ''hello''\<rparr>])"
  unfolding getFunctionsToWrap_log_free [OF assms]
  by (simp add: getFunctionsToWrap_def Let_def fixture_plugin_def fixture_functions_def
      getAllFunctions_def getFunction_def startsWith_def List.map_filter_simps)

lemma fixture_eligible_none:
  "snd (fst (getFunctionsToWrap (fixture_plugin rt cfg []) None)) = []"
  by (simp add: getFunctionsToWrap_def Let_def fixture_plugin_def getAllFunctions_def
      List.map_filter_simps)

lemma cleanup_effects:
  "(snd (fst (getFunctionsToWrap p None)) = [] \<longrightarrow>
      fst (afterCreateDeploymentArtifacts p) = Inr () \<and>
      remove_calls (snd (afterCreateDeploymentArtifacts p)) = remove_calls p \<and>
      execSync_calls (snd (afterCreateDeploymentArtifacts p)) = execSync_calls p) \<and>
   (snd (fst (getFunctionsToWrap p None)) \<noteq> [] \<longrightarrow>
      remove_calls (snd (afterCreateDeploymentArtifacts p)) = remove_calls p @ [folderPath p] \<and>
      execSync_calls (snd (afterCreateDeploymentArtifacts p)) =
        execSync_calls p @
        (if fst (fst (getFunctionsToWrap p None)) = Nodejs \<and> \<not> fst (isNodeTracerInstalled p)
         then (if get_nodePackageManager p = ''npm'' then [''npm uninstall @lumigo/tracer'']
               else if get_nodePackageManager p = ''yarn'' then [''yarn remove @lumigo/tracer'']
               else [])
         else []) \<and>
      (fst (fst (getFunctionsToWrap p None)) \<noteq> Nodejs \<or> fst (isNodeTracerInstalled p) \<longrightarrow>
         fst (afterCreateDeploymentArtifacts p) = Inr ()))"
proof -
  define family where "family = fst (fst (getFunctionsToWrap p None))"
  define fns where "fns = snd (fst (getFunctionsToWrap p None))"
  define p1 where "p1 = snd (getFunctionsToWrap p None)"
  define p2 where "p2 = cleanFolder p1"
  have g: "getFunctionsToWrap p None = ((family, fns), p1)"
    by (simp add: family_def fns_def p1_def)
  have s1: "the_service p1 = the_service p" "surroundings p1 = surroundings p"
    "isNodeTracerInstalled_memo p1 = isNodeTracerInstalled_memo p"
    "remove_calls p1 = remove_calls p" "execSync_calls p1 = execSync_calls p"
    "folderPath p1 = folderPath p"
    by (simp_all add: p1_def)
  have s2: "the_service p2 = the_service p" "surroundings p2 = surroundings p"
    "isNodeTracerInstalled_memo p2 = isNodeTracerInstalled_memo p"
    "remove_calls p2 = remove_calls p @ [folderPath p]" "execSync_calls p2 = execSync_calls p"
    by (simp_all add: p2_def s1)
  have t: "tracerInstalled p2 = tracerInstalled p"
    by (rule tracerInstalled_cong [OF s2(3) s2(2)])
  have c: "packageManagerCommand p2 a b = packageManagerCommand p a b" for a b
    by (rule packageManagerCommand_cong [OF s2(1)])
  note u = uninstallLumigoNodejs_state [of p2, unfolded t c s2]
  have a: "afterCreateDeploymentArtifacts p =
             (if fns = [] then (Inr (), p1)
              else if family = Nodejs then uninstallLumigoNodejs p2 else (Inr (), p2))"
    by (simp add: afterCreateDeploymentArtifacts_def g Let_def p2_def)
  show ?thesis
    unfolding family_def [symmetric] fns_def [symmetric] a
    using u(1,2,5) s1 s2
    by (auto simp: packageManagerCommand_unfold)
qed

lemma tracer_check_is_remembered:
  "(isNodeTracerInstalled_memo p = None \<longrightarrow>
      fst (isNodeTracerInstalled p) =
        (case packageJson p of Inr deps \<Rightarrow> ''@lumigo/tracer'' \<in> set deps | Inl m \<Rightarrow> False)) \<and>
   (\<forall>b. isNodeTracerInstalled_memo p = Some b \<longrightarrow> fst (isNodeTracerInstalled p) = b) \<and>
   isNodeTracerInstalled_memo (snd (installLumigoNodejs p)) = Some (fst (isNodeTracerInstalled p))"
  by (simp add: tracerInstalled_def installLumigoNodejs_state(5))

subsection \<open>A pass under a Python runtime\<close>

lemma python3_family:
  assumes "startsWith (provider_runtime (the_service p)) ''python3''"
  shows "fst (fst (getFunctionsToWrap p names)) = Python"
proof -
  have "\<not> startsWith (provider_runtime (the_service p)) ''nodejs''"
    using assms by (auto simp: startsWith_def prefix_def)
  with assms show ?thesis
    by (simp add: getFunctionsToWrap_def Let_def)
qed

lemma eligible_decl:
  assumes "f \<in> set (snd (fst (getFunctionsToWrap p names)))"
  shows "getFunction (the_service p) (localName f) = Some (decl f)"
    and "localName f \<in> set (getAllFunctions (the_service p))"
proof -
  have m: "g (localName y) = Some (decl y) \<and> localName y \<in> set xs"
    if "y \<in> set (List.map_filter (\<lambda>n. map_option (\<lambda>d. \<lparr>decl = d, localName = n\<rparr>) (g n)) xs)"
    for y :: cloned_function and g xs
    using that by (induction xs) (auto split: option.splits)
  from assms have "f \<in> set (List.map_filter
        (\<lambda>n. map_option (\<lambda>d. \<lparr>decl = d, localName = n\<rparr>) (getFunction (the_service p) n))
        (filter (\<lambda>n. n \<in> set (case names of None \<Rightarrow> getAllFunctions (the_service p) | Some ns \<Rightarrow> ns))
           (getAllFunctions (the_service p))))"
    by (auto simp: getFunctionsToWrap_def Let_def split: if_splits)
  from m [OF this] show "getFunction (the_service p) (localName f) = Some (decl f)"
    and "localName f \<in> set (getAllFunctions (the_service p))"
    by simp_all
qed

lemma eligible_distinct:
  assumes "distinct (map fst (service_functions (the_service p)))"
  shows "distinct (map localName (snd (fst (getFunctionsToWrap p names))))"
proof -
  let ?all = "getAllFunctions (the_service p)"
  let ?ns = "case names of None \<Rightarrow> ?all | Some ns \<Rightarrow> ns"
  have "\<forall>n \<in> set (filter (\<lambda>n. n \<in> set ?ns) ?all). \<exists>d. getFunction (the_service p) n = Some d"
    by (simp add: getFunction_declared)
  from map_filter_names [OF this]
  have "map localName (snd (fst (getFunctionsToWrap p names))) = filter (\<lambda>n. n \<in> set ?ns) ?all \<or>
        map localName (snd (fst (getFunctionsToWrap p names))) = []"
    by (simp add: getFunctionsToWrap_def Let_def)
  moreover have "distinct ?all"
    using assms by (simp add: getAllFunctions_def)
  ultimately show ?thesis
    by (auto simp del: map_is_Nil_conv)
qed

lemma ensureTracerInstalled_fst_cong:
  "fs_files p' = fs_files p \<Longrightarrow>
   fst (ensureTracerInstalled sls f p') = fst (ensureTracerInstalled sls f p)"
  by (simp add: ensureTracerInstalled_def split: option.splits fs_entry.splits)

lemma ensureEachFunction_fst_cong:
  "fs_files p' = fs_files p \<Longrightarrow>
   fst (ensureEachFunction sls ov fns p') = fst (ensureEachFunction sls ov fns p)"
proof (induction fns arbitrary: p p')
  case Nil
  then show ?case by simp
next
  case (Cons fn fns)
  let ?f = "case ov of None \<Rightarrow> path_join [dirname (handler (decl fn)), ''requirements.txt'']
                     | Some f \<Rightarrow> f"
  have e: "fst (ensureTracerInstalled sls ?f p') = fst (ensureTracerInstalled sls ?f p)"
    by (rule ensureTracerInstalled_fst_cong [OF Cons.prems])
  show ?case
    using Cons.IH [OF Cons.prems] e
    by (simp add: Let_def result_case split: sum.splits)
qed

lemma ensureLumigoPythonIsInstalled_fst_cong:
  assumes s: "the_service p' = the_service p" and f: "fs_files p' = fs_files p"
  shows "fst (ensureLumigoPythonIsInstalled p') = fst (ensureLumigoPythonIsInstalled p)"
proof -
  define q where "q = log ''functions are packed individually, ensuring each function has a requirement.txt...''
              (log ''checking if lumigo_tracer is installed...'' p)"
  define q' where "q' = log ''functions are packed individually, ensuring each function has a requirement.txt...''
              (log ''checking if lumigo_tracer is installed...'' p')"
  define r where "r = log ''ensuring there is a requirement.txt or equivalent...''
              (log ''checking if lumigo_tracer is installed...'' p)"
  define r' where "r' = log ''ensuring there is a requirement.txt or equivalent...''
              (log ''checking if lumigo_tracer is installed...'' p')"
  have qs: "the_service q' = the_service q" "the_service q = the_service p"
    by (simp_all add: q_def q'_def s)
  have g: "fst (getFunctionsToWrap q' None) = fst (getFunctionsToWrap q None)"
    by (rule getFunctionsToWrap_log_free [OF qs(1)])
  have ff: "fs_files (snd (getFunctionsToWrap q' None)) = fs_files (snd (getFunctionsToWrap q None))"
    using surroundings_fields(6) [OF getFunctionsToWrap_state(1), of q' None]
      surroundings_fields(6) [OF getFunctionsToWrap_state(1), of q None]
    by (simp add: q_def q'_def f)
  have rf: "fs_files r' = fs_files r"
    by (simp add: r_def r'_def f)
  have a: "ensureLumigoPythonIsInstalled p =
     (if (case package (the_service p) of None \<Rightarrow> False | Some pk \<Rightarrow> individually pk)
      then ensureEachFunction (''serverless-python-requirements'' \<in> set (plugins (the_service p)))
             (pythonRequirements_fileName (the_service p))
             (snd (fst (getFunctionsToWrap q None))) (snd (getFunctionsToWrap q None))
      else ensureTracerInstalled (''serverless-python-requirements'' \<in> set (plugins (the_service p)))
             (case pythonRequirements_fileName (the_service p) of None \<Rightarrow> ''requirements.txt''
              | Some f \<Rightarrow> f) r)"
    if "q = log ''functions are packed individually, ensuring each function has a requirement.txt...''
              (log ''checking if lumigo_tracer is installed...'' p)"
      and "r = log ''ensuring there is a requirement.txt or equivalent...''
              (log ''checking if lumigo_tracer is installed...'' p)"
    for p q r
    unfolding ensureLumigoPythonIsInstalled_def Let_def that
    by (simp split: prod.splits)
  show ?thesis
    unfolding a [OF q_def r_def] a [OF q'_def r'_def] s g
    using ensureEachFunction_fst_cong [OF ff] ensureTracerInstalled_fst_cong [OF rf]
    by simp
qed

lemma wrapFunctions_python:
  assumes fam: "fst (fst (getFunctionsToWrap p names)) = Python"
    and ne: "snd (fst (getFunctionsToWrap p names)) \<noteq> []"
    and tok: "token (custom_lumigo (the_service p)) = Some t"
    and req: "fst (ensureLumigoPythonIsInstalled p) = Inr ()"
  shows "fst (wrapFunctions names p) = Inr () \<and>
         execSync_calls (snd (wrapFunctions names p)) = execSync_calls p \<and>
         outputFile_calls (snd (wrapFunctions names p)) =
           outputFile_calls p @
           map (pythonArtifact p (Some t)) (snd (fst (getFunctionsToWrap p names))) \<and>
         service_functions (the_service (snd (wrapFunctions names p))) =
           setHandlers (pythonHandler p) (snd (fst (getFunctionsToWrap p names)))
             (service_functions (the_service p))"
proof -
  let ?fns = "snd (fst (getFunctionsToWrap p names))"
  let ?edge = "edgeHost (custom_lumigo (the_service p))"
  define p3 where "p3 = foldl verboseLogJson
                 (log (''there are '' @ numberToString (length ?fns) @ '' function(s) to wrap...'')
                    (snd (getFunctionsToWrap p names))) ?fns"
  define m where "m = ensureLumigoPythonIsInstalled p3"
  define w where "w = wrapPythonFunctions ?fns (Some t) (snd m)"
  have s3: "the_service p3 = the_service p" "surroundings p3 = surroundings p"
    "execSync_calls p3 = execSync_calls p" "outputFile_calls p3 = outputFile_calls p"
    by (simp_all add: p3_def)
  have m: "fst m = Inr ()" "execSync_calls (snd m) = execSync_calls p"
    "surroundings (snd m) = surroundings p" "the_service (snd m) = the_service p"
    "outputFile_calls (snd m) = outputFile_calls p"
    using req ensureLumigoPythonIsInstalled_fst_cong [OF s3(1) surroundings_fields(6) [OF s3(2)]]
    by (simp_all add: m_def s3)
  have pass: "wrapPass Python ?fns (Some t) ?edge p3 = w"
    using m(1) by (simp add: wrapPass_def w_def m_def)
  have w: "fst w = Inr ()" "execSync_calls (snd w) = execSync_calls p"
    "outputFile_calls (snd w) = outputFile_calls p @ map (pythonArtifact p (Some t)) ?fns"
    "the_service (snd w) =
       (the_service p)\<lparr>service_functions := setHandlers (pythonHandler p) ?fns (service_functions (the_service p))\<rparr>"
    using wrapPythonFunctions_state [of ?fns "Some t" "snd m"] m
    by (simp_all add: w_def pythonArtifact_cong [OF m(3)] pythonHandler_cong [OF m(3)])
  have "wrapFunctions names p = (Inr (), includeLumigo (snd w))"
    using fam ne tok pass w(1) by (simp add: wrapFunctions_unfold Let_def p3_def)
  then show ?thesis
    using w by simp
qed

lemma fixture_eligible_python:
  "fst (getFunctionsToWrap (fixture_plugin ''python3.7'' cfg fixture_functions) None) =
     (Python, map (\<lambda>(n, d). \<lparr>decl = d, localName = n\<rparr>) fixture_functions)"
  by (simp add: getFunctionsToWrap_def Let_def fixture_plugin_def fixture_functions_def
      getAllFunctions_def getFunction_def startsWith_def List.map_filter_simps)

lemma fixture_requirements:
  "fst (ensureLumigoPythonIsInstalled (fixture_plugin rt cfg fs)) = Inr ()"
  by (simp add: ensureLumigoPythonIsInstalled_def Let_def fixture_plugin_def log_def
      ensureTracerInstalled_def includes_str_def)

subsection \<open>The parameters of a written Node.js wrapper\<close>

text \<open>
  The parameters in the text written by \<open>createWrappedNodejsFunction\<close>: the token
  always, the edge host when one is configured and not empty, each with a space after
  the colon.
\<close>

lemma written_nodejs_parameters:
  "includes_str
     (snd (last (outputFile_calls (snd (createWrappedNodejsFunction func (Some t) edge p)))))
     (''token: '' @ sq @ t @ sq) \<and>
   (\<forall>e. edge = Some e \<and> e \<noteq> [] \<longrightarrow>
      includes_str
        (snd (last (outputFile_calls (snd (createWrappedNodejsFunction func (Some t) edge p)))))
        (''edgeHost: '' @ sq @ e @ sq)) \<and>
   ((edge = None \<or> edge = Some []) \<and> \<not> includes_str t ''edgeHost'' \<and>
    \<not> includes_str (handler (decl func)) ''edgeHost'' \<longrightarrow>
      \<not> includes_str
          (snd (last (outputFile_calls (snd (createWrappedNodejsFunction func (Some t) edge p)))))
          ''edgeHost'')"
proof -
  let ?h = "handler (decl func)"
  have a: "\<not> includes_str
          (nodejsWrapper (tracerParameters t edge) (handlerModulePath ?h) (handlerFuncName ?h))
          ''edgeHost''"
    if e: "edge = None \<or> edge = Some []" and t: "\<not> includes_str t ''edgeHost''"
      and h: "\<not> includes_str ?h ''edgeHost''"
  proof -
    have p: "tracerParameters t edge = ''token: '' @ sq @ t @ sq"
      using e tracerParameters_cases(1,2) by auto
    have m: "\<not> sublist ''edgeHost'' (handlerModulePath ?h)"
      using h sublist_order.order_trans [OF _ sublist_handlerModulePath [of ?h]]
      unfolding includes_str_def by blast
    have f: "\<not> sublist ''edgeHost'' (handlerFuncName ?h)"
      using h sublist_order.order_trans [OF _ sublist_handlerFuncName [of ?h]]
      unfolding includes_str_def by blast
    from t have "\<not> sublist ''edgeHost'' t" by (simp add: includes_str_def)
    from nodejsWrapper_without_edgeHost [OF this m f] show ?thesis
      unfolding p includes_str_def .
  qed
  show ?thesis
    unfolding written_nodejs_content
    using nodejsWrapper_includes_token nodejsWrapper_includes_edgeHost a by blast
qed

section \<open>Unsupported runtimes\<close>

text \<open>
  Claim C3. When the provider runtime starts neither with \<open>nodejs\<close> nor with
  \<open>python3\<close>, \<open>wrapFunctions\<close> returns without an error, whatever the name filter and
  the rest of the configuration are; it writes no file and runs no command: the only
  change is two lines on the log, the first saying that the runtime is unsupported
  and skipped.
\<close>

theorem unsupported_runtime_is_skipped:
  assumes "\<not> startsWith (provider_runtime (the_service p)) ''nodejs''"
      and "\<not> startsWith (provider_runtime (the_service p)) ''python3''"
  shows "wrapFunctions names p =
           (Inr (),
            p\<lparr>cli_log := cli_log p @
                 [Line (''serverless-lumigo: unsupported runtime: ['' @
                        provider_runtime (the_service p) @ ''], skipped...''),
                  Line ''serverless-lumigo: there are 0 function(s) to wrap...'']\<rparr>)"
  using assms
  by (simp add: wrapFunctions_def getFunctionsToWrap_def Let_def log_def numberToString_0)

theorem unsupported_runtime_is_skipped_witness:
  "fst (wrapFunctions None (fixture_plugin ''python2.7'' fixture_lumigo fixture_functions)) = Inr () \<and>
   outputFile_calls
     (snd (wrapFunctions None (fixture_plugin ''python2.7'' fixture_lumigo fixture_functions))) = [] \<and>
   execSync_calls
     (snd (wrapFunctions None (fixture_plugin ''python2.7'' fixture_lumigo fixture_functions))) = [] \<and>
   cli_log
     (snd (wrapFunctions None (fixture_plugin ''python2.7'' fixture_lumigo fixture_functions))) =
     [Line ''serverless-lumigo: unsupported runtime: [python2.7], skipped...'',
      Line ''serverless-lumigo: there are 0 function(s) to wrap...'']"
proof -
  have a: "\<not> startsWith
              (provider_runtime
                (the_service (fixture_plugin ''python2.7'' fixture_lumigo fixture_functions)))
              ''nodejs''"
    by (simp add: fixture_plugin_def startsWith_def)
  have b: "\<not> startsWith
              (provider_runtime
                (the_service (fixture_plugin ''python2.7'' fixture_lumigo fixture_functions)))
              ''python3''"
    by (simp add: fixture_plugin_def startsWith_def)
  show ?thesis
    by (simp add: unsupported_runtime_is_skipped [OF a b]) (simp add: fixture_plugin_def)
qed

section \<open>The name filter\<close>

text \<open>
  Claim C9. With a name filter, the names of the functions to wrap are the declared
  names that occur in the filter, in declaration order (and none when the runtime is
  unsupported): a name of the filter that is not declared is dropped without an error.
  When no name of the filter is declared, the set is empty and \<open>wrapFunctions\<close>
  returns at once: no error, no command run, no file written, the service untouched.
\<close>

theorem unknown_names_are_dropped:
  "map localName (snd (fst (getFunctionsToWrap p (Some names)))) =
     (if startsWith (provider_runtime (the_service p)) ''nodejs'' \<or>
         startsWith (provider_runtime (the_service p)) ''python3''
      then filter (\<lambda>n. n \<in> set names) (getAllFunctions (the_service p)) else []) \<and>
   (set names \<inter> set (getAllFunctions (the_service p)) = {} \<longrightarrow>
      snd (fst (getFunctionsToWrap p (Some names))) = [] \<and>
      fst (wrapFunctions (Some names) p) = Inr () \<and>
      outputFile_calls (snd (wrapFunctions (Some names) p)) = outputFile_calls p \<and>
      execSync_calls (snd (wrapFunctions (Some names) p)) = execSync_calls p \<and>
      the_service (snd (wrapFunctions (Some names) p)) = the_service p)"
  using eligible_names [of p names] getFunctionsToWrap_empty [of names p]
    wrapFunctions_nothing_to_wrap [of p "Some names"]
  by blast

theorem unknown_names_are_dropped_witness:
  "map localName
     (snd (fst (getFunctionsToWrap
                  (fixture_plugin ''nodejs12.x'' fixture_lumigo fixture_functions)
                  (Some [''nobody'', ''jet''])))) = [''jet''] \<and>
   fst (wrapFunctions (Some [''nobody''])
          (fixture_plugin ''nodejs12.x'' fixture_lumigo fixture_functions)) = Inr () \<and>
   outputFile_calls
     (snd (wrapFunctions (Some [''nobody''])
             (fixture_plugin ''nodejs12.x'' fixture_lumigo fixture_functions))) = [] \<and>
   execSync_calls
     (snd (wrapFunctions (Some [''nobody''])
             (fixture_plugin ''nodejs12.x'' fixture_lumigo fixture_functions))) = []"
proof -
  have d: "set [''nobody''] \<inter>
           set (getAllFunctions
                  (the_service (fixture_plugin ''nodejs12.x'' fixture_lumigo fixture_functions))) = {}"
    by (simp add: fixture_plugin_def fixture_functions_def getAllFunctions_def)
  have s: "startsWith
             (provider_runtime
                (the_service (fixture_plugin ''nodejs12.x'' fixture_lumigo fixture_functions)))
             ''nodejs''"
    by (simp add: fixture_plugin_def startsWith_def)
  have e: "map localName
             (snd (fst (getFunctionsToWrap
                          (fixture_plugin ''nodejs12.x'' fixture_lumigo fixture_functions)
                          (Some [''nobody'', ''jet''])))) = [''jet'']"
    using unknown_names_are_dropped
            [of "fixture_plugin ''nodejs12.x'' fixture_lumigo fixture_functions"
                "[''nobody'', ''jet'']"] s
    by (simp add: fixture_plugin_def fixture_functions_def getAllFunctions_def)
  from unknown_names_are_dropped
         [of "fixture_plugin ''nodejs12.x'' fixture_lumigo fixture_functions" "[''nobody'']"] d
  have "fst (wrapFunctions (Some [''nobody''])
               (fixture_plugin ''nodejs12.x'' fixture_lumigo fixture_functions)) = Inr () \<and>
        outputFile_calls
          (snd (wrapFunctions (Some [''nobody''])
                  (fixture_plugin ''nodejs12.x'' fixture_lumigo fixture_functions))) =
          outputFile_calls (fixture_plugin ''nodejs12.x'' fixture_lumigo fixture_functions) \<and>
        execSync_calls
          (snd (wrapFunctions (Some [''nobody''])
                  (fixture_plugin ''nodejs12.x'' fixture_lumigo fixture_functions))) =
          execSync_calls (fixture_plugin ''nodejs12.x'' fixture_lumigo fixture_functions)"
    by blast
  with e show ?thesis
    by (simp add: fixture_plugin_def)
qed

section \<open>What a wrap pass changes\<close>

text \<open>
  Claim C10. Whatever \<open>wrapFunctions\<close> returns, the registry afterwards has the same
  names in the same order, every declaration has kept all its fields except perhaps
  \<open>handler\<close> (events, runtime, tags, environment, layers and the rest), a function
  outside the set to wrap has kept its declaration as it was, and no other part of the
  service has changed except the package section. The package section is the old one
  with \<open>_lumigo/*\<close> appended to its include list when the pass completed with
  something to wrap (nothing happens when there is no package section), and the old
  one otherwise.
\<close>

theorem wrap_pass_changes_only_handlers:
  "onlyHandlers (localName ` set (snd (fst (getFunctionsToWrap p names)))) (the_service p)
     ((the_service (snd (wrapFunctions names p)))\<lparr>package := package (the_service p)\<rparr>) \<and>
   package (the_service (snd (wrapFunctions names p))) =
     (if fst (wrapFunctions names p) = Inr () \<and> snd (fst (getFunctionsToWrap p names)) \<noteq> []
      then includedPackage (package (the_service p))
      else package (the_service p))"
proof -
  let ?fns = "snd (fst (getFunctionsToWrap p names))"
  let ?family = "fst (fst (getFunctionsToWrap p names))"
  let ?p3 = "foldl verboseLogJson
                 (log (''there are '' @ numberToString (length ?fns) @ '' function(s) to wrap...'')
                    (snd (getFunctionsToWrap p names))) ?fns"
  let ?tok = "token (custom_lumigo (the_service p))"
  let ?edge = "edgeHost (custom_lumigo (the_service p))"
  let ?w = "wrapPass ?family ?fns ?tok ?edge ?p3"
  have s3: "the_service ?p3 = the_service p" by simp
  show ?thesis
  proof (cases "?fns = []")
    case True
    then have "wrapFunctions names p = (Inr (), ?p3)"
      by (simp add: wrapFunctions_unfold Let_def)
    then show ?thesis
      using True by (simp add: onlyHandlers_refl)
  next
    case ne: False
    show ?thesis
    proof (cases ?tok)
      case None
      with ne have "wrapFunctions names p = (Inl tokenMissing, ?p3)"
        by (simp add: wrapFunctions_unfold Let_def)
      then show ?thesis
        by (simp add: onlyHandlers_refl)
    next
      case (Some t)
      from wrapPass_service [OF Some, of ?fns ?p3 ?family ?edge]
      have o: "onlyHandlers (localName ` set ?fns) (the_service p) (the_service (snd ?w))"
        by (simp only: s3)
      show ?thesis
      proof (cases "fst ?w")
        case (Inl e)
        with ne Some have "wrapFunctions names p = (Inl e, snd ?w)"
          by (simp add: wrapFunctions_unfold Let_def)
        then show ?thesis
          using frame_failed [OF o] by simp
      next
        case (Inr u)
        with ne Some have "wrapFunctions names p = (Inr (), includeLumigo (snd ?w))"
          by (simp add: wrapFunctions_unfold Let_def)
        then show ?thesis
          using ne frame_completed [OF o] by (simp add: includeLumigo_service)
      qed
    qed
  qed
qed

theorem wrap_pass_changes_only_handlers_witness:
  "list_all2 (keptButHandler {''hello''}) fixture_functions
     (service_functions (the_service (snd (wrapFunctions (Some [''hello''])
        (fixture_plugin ''nodejs12.x'' fixture_lumigo fixture_functions))))) \<and>
   package (the_service (snd (wrapFunctions (Some [''hello''])
        (fixture_plugin ''nodejs12.x'' fixture_lumigo fixture_functions)))) = None"
proof -
  define P where "P = fixture_plugin ''nodejs12.x'' fixture_lumigo fixture_functions"
  have e: "snd (fst (getFunctionsToWrap P (Some [''hello'']))) =
             [\<lparr>decl = fixture_decl ''hello.world'', localName = ''hello''\<rparr>]"
    using fixture_eligible_hello [of P fixture_lumigo] by (simp add: P_def)
  have P: "service_functions (the_service P) = fixture_functions" "package (the_service P) = None"
    by (simp_all add: P_def fixture_plugin_def)
  from wrap_pass_changes_only_handlers [of P "Some [''hello'']"] show ?thesis
    unfolding P_def [symmetric] e
    by (simp add: onlyHandlers_def P includedPackage_def)
qed

section \<open>The handler reference parser\<close>

text \<open>
  Claim C1, as stated, fails: the function name is taken from the base name of the
  handler string, so for \<open>foo.bar/zoo\<close>, whose last dot comes before a path
  separator, the function name is \<open>zoo\<close>, the module path is \<open>foo\<close>, and the two
  do not give the handler string back.
\<close>

theorem handler_parser_counterexample:
  "CHR ''.'' \<in> set ''foo.bar/zoo'' \<and>
   handlerFuncName ''foo.bar/zoo'' = ''zoo'' \<and>
   handlerModulePath ''foo.bar/zoo'' = ''foo'' \<and>
   handlerModulePath ''foo.bar/zoo'' @ ''.'' @ handlerFuncName ''foo.bar/zoo'' \<noteq> ''foo.bar/zoo''"
  by (simp add: handlerFuncName_def handlerModulePath_def basename_def lastIndexOf_def
      substr_def substrFrom_def substrStart_def Let_def)

text \<open>
  Claim C1, amended. For every handler string \<open>m.f\<close> in which no path separator
  follows the final dot (\<open>f\<close> holds neither a dot nor a path separator, \<open>m\<close> may hold
  any number of both), the function name is \<open>f\<close>, the text after the final dot, and
  the module path is \<open>m\<close>, the text before it; so module path, dot and function name
  give the handler string back. A handler string without a dot raises nothing: its
  module path is empty and its function name is its base name.
\<close>

theorem handler_parser_last_dot:
  "(CHR ''.'' \<notin> set f \<and> CHR ''/'' \<notin> set f \<longrightarrow>
      handlerModulePath (m @ ''.'' @ f) = m \<and> handlerFuncName (m @ ''.'' @ f) = f) \<and>
   (CHR ''.'' \<notin> set h \<longrightarrow> handlerModulePath h = [] \<and> handlerFuncName h = basename h)"
  using handlerFuncName_after_last_dot [of f m] handlerModulePath_before_last_dot [of f m]
    handler_without_dot [of h]
  by simp

theorem handler_parser_last_dot_witness:
  "handlerModulePath ''foo.bar/zoo.handler'' = ''foo.bar/zoo'' \<and>
   handlerFuncName ''foo.bar/zoo.handler'' = ''handler'' \<and>
   handlerModulePath ''nodot'' = [] \<and> handlerFuncName ''nodot'' = ''nodot''"
  using handler_parser_last_dot [of "''handler''" "''foo.bar/zoo''" "''nodot''"]
  by (simp add: basename_def)

section \<open>The Python scenario\<close>

text \<open>
  Claim C5. Let the runtime of the service start with \<open>python3\<close>, a token be
  configured and the requirements check pass; take any function that \<open>wrapFunctions\<close>
  selects whose handler is \<open>foo.bar/zoo.handler\<close> (the keys of the registry distinct,
  the service path absolute, the local name a file name without a path separator).
  Its module path is \<open>foo.bar.zoo\<close>; \<open>wrapFunctions\<close> completes and writes a file
  whose text contains the line \<open>from foo.bar.zoo import handler as userHandler\<close>; the
  file is \<open>_lumigo/<localName>.py\<close> relative to the service path; and after the pass
  the registry holds the function with its handler set to
  \<open>_lumigo/<localName>.handler\<close>, every other field as declared.
\<close>

theorem python_scenario:
  assumes rt: "startsWith (provider_runtime (the_service p)) ''python3''"
    and tok: "token (custom_lumigo (the_service p)) = Some t"
    and req: "fst (ensureLumigoPythonIsInstalled p) = Inr ()"
    and el: "func \<in> set (snd (fst (getFunctionsToWrap p names)))"
    and h: "handler (decl func) = ''foo.bar/zoo.handler''"
    and keys: "distinct (map fst (service_functions (the_service p)))"
    and abs: "isAbsolute (servicePath p)"
    and name: "CHR ''/'' \<notin> set (localName func)"
  shows "pythonModulePath (handler (decl func)) = ''foo.bar.zoo'' \<and>
         fst (wrapFunctions names p) = Inr () \<and>
         (\<exists>content.
            (path_join [folderPath p, localName func @ ''.py''], content) \<in>
              set (outputFile_calls (snd (wrapFunctions names p))) \<and>
            includes_str content ''from foo.bar.zoo import handler as userHandler'') \<and>
         path_relative (cwd p) (servicePath p) (path_join [folderPath p, localName func @ ''.py'']) =
           ''_lumigo/'' @ localName func @ ''.py'' \<and>
         map_of (service_functions (the_service (snd (wrapFunctions names p)))) (localName func) =
           Some ((decl func)\<lparr>handler := ''_lumigo/'' @ localName func @ ''.handler''\<rparr>)"
proof -
  let ?fns = "snd (fst (getFunctionsToWrap p names))"
  have hm: "handlerModulePath ''foo.bar/zoo.handler'' = ''foo.bar/zoo''"
    using handlerModulePath_before_last_dot [of "''handler''" "''foo.bar/zoo''"] by simp
  have hf: "handlerFuncName ''foo.bar/zoo.handler'' = ''handler''"
    using handlerFuncName_after_last_dot [of "''handler''" "''foo.bar/zoo''"] by simp
  have pm: "pythonModulePath (handler (decl func)) = ''foo.bar.zoo''"
    by (simp add: h pythonModulePath_def hm replace_all_separators)
  from el have ne: "?fns \<noteq> []" by auto
  note w = wrapFunctions_python [OF python3_family [OF rt] ne tok req]
  have art: "pythonArtifact p (Some t) func \<in> set (outputFile_calls (snd (wrapFunctions names p)))"
    using w el by simp
  have inc: "includes_str (snd (pythonArtifact p (Some t) func))
               ''from foo.bar.zoo import handler as userHandler''"
    using pythonWrapper_includes_import [of "tokenText (Some t)" "''foo.bar.zoo''" "''handler''"] pm
    by (simp add: pythonArtifact_def h hf)
  have pa: "pythonArtifact p (Some t) func =
              (path_join [folderPath p, localName func @ ''.py''],
               snd (pythonArtifact p (Some t) func))"
    by (simp add: pythonArtifact_def)
  have rel: "path_relative (cwd p) (servicePath p) (path_join [folderPath p, localName func @ ''.py'']) =
           ''_lumigo/'' @ localName func @ ''.py''"
    using artifact_relative [OF abs goodSegs_fileName [OF name, of "''.py''"]] by simp
  have ph: "pythonHandler p func = ''_lumigo/'' @ localName func @ ''.handler''"
    by (simp add: pythonHandler_plain [OF abs name] h hf)
  have reg: "map_of (service_functions (the_service p)) (localName func) = Some (decl func)"
    using eligible_decl(1) [OF el] by (simp add: getFunction_def)
  have "map_of (service_functions (the_service (snd (wrapFunctions names p)))) (localName func) =
          map_option (\<lambda>d. d\<lparr>handler := pythonHandler p func\<rparr>)
            (map_of (service_functions (the_service p)) (localName func))"
    using w by (simp add: map_of_setHandlers [OF eligible_distinct [OF keys] el])
  then have hd: "map_of (service_functions (the_service (snd (wrapFunctions names p)))) (localName func) =
          Some ((decl func)\<lparr>handler := ''_lumigo/'' @ localName func @ ''.handler''\<rparr>)"
    by (simp add: reg ph)
  from pm w art inc pa rel hd show ?thesis
    by metis
qed

theorem python_scenario_witness:
  "pythonModulePath ''foo.bar/zoo.handler'' = ''foo.bar.zoo'' \<and>
   fst (wrapFunctions None (fixture_plugin ''python3.7'' fixture_lumigo fixture_functions)) = Inr () \<and>
   path_relative ''/project'' ''/project''
     (path_join [folderPath (fixture_plugin ''python3.7'' fixture_lumigo fixture_functions), ''pack.py'']) =
     ''_lumigo/pack.py'' \<and>
   map_of (service_functions (the_service (snd (wrapFunctions None
       (fixture_plugin ''python3.7'' fixture_lumigo fixture_functions))))) ''pack'' =
     Some (fixture_decl ''_lumigo/pack.handler'')"
proof -
  define P where "P = fixture_plugin ''python3.7'' fixture_lumigo fixture_functions"
  define F where "F = \<lparr>decl = fixture_decl ''foo.bar/zoo.handler'', localName = ''pack''\<rparr>"
  have rt: "startsWith (provider_runtime (the_service P)) ''python3''"
    by (simp add: P_def fixture_plugin_def startsWith_def)
  have tok: "token (custom_lumigo (the_service P)) = Some ''test-token''"
    by (simp add: P_def fixture_plugin_def fixture_lumigo_def)
  have req: "fst (ensureLumigoPythonIsInstalled P) = Inr ()"
    by (simp add: P_def fixture_requirements)
  have el: "F \<in> set (snd (fst (getFunctionsToWrap P None)))"
    by (simp add: P_def fixture_eligible_python) (simp add: F_def fixture_functions_def)
  have h: "handler (decl F) = ''foo.bar/zoo.handler''"
    by (simp add: F_def fixture_decl_def)
  have keys: "distinct (map fst (service_functions (the_service P)))"
    by (simp add: P_def fixture_plugin_def fixture_functions_def)
  have a: "isAbsolute (servicePath P)"
    by (simp add: P_def fixture_plugin_def isAbsolute_def)
  have n: "CHR ''/'' \<notin> set (localName F)"
    by (simp add: F_def)
  have P: "cwd P = ''/project''" "servicePath P = ''/project''"
    by (simp_all add: P_def fixture_plugin_def)
  have u: "(decl F)\<lparr>handler := ''_lumigo/pack.handler''\<rparr> = fixture_decl ''_lumigo/pack.handler''"
    "localName F = ''pack''"
    by (simp_all add: F_def fixture_decl_def)
  from python_scenario [OF rt tok req el h keys a n] P u
  have "pythonModulePath ''foo.bar/zoo.handler'' = ''foo.bar.zoo'' \<and>
        fst (wrapFunctions None P) = Inr () \<and>
        path_relative ''/project'' ''/project'' (path_join [folderPath P, ''pack.py'']) =
          ''_lumigo/pack.py'' \<and>
        map_of (service_functions (the_service (snd (wrapFunctions None P)))) ''pack'' =
          Some (fixture_decl ''_lumigo/pack.handler'')"
    by (simp add: h)
  then show ?thesis
    unfolding P_def .
qed

section \<open>The parameters in the Node.js wrapper\<close>

text \<open>
  Claim C6 does not hold of this code: \<open>getNodeTracerParameters\<close> puts a space after
  each colon. On the service of the test-suite with the token \<open>test-token\<close> and the
  edge host \<open>edge-host\<close>, \<open>wrapFunctions\<close> completes and the first file it writes,
  \<open>_lumigo/hello.js\<close>, contains neither \<open>token:'test-token'\<close> nor
  \<open>edgeHost:'edge-host'\<close>; it contains \<open>token: 'test-token',edgeHost: 'edge-host'\<close>.
\<close>

theorem nodejs_wrapper_parameters_are_spaced:
  "fst (wrapFunctions None
     (fixture_plugin ''nodejs12.x'' (fixture_lumigo\<lparr>edgeHost := Some ''edge-host''\<rparr>) fixture_functions)) =
     Inr () \<and>
   fst (hd (outputFile_calls (snd (wrapFunctions None
     (fixture_plugin ''nodejs12.x'' (fixture_lumigo\<lparr>edgeHost := Some ''edge-host''\<rparr>) fixture_functions))))) =
     ''/project/_lumigo/hello.js'' \<and>
   \<not> includes_str
     (snd (hd (outputFile_calls (snd (wrapFunctions None
       (fixture_plugin ''nodejs12.x'' (fixture_lumigo\<lparr>edgeHost := Some ''edge-host''\<rparr>) fixture_functions))))))
     (''token:'' @ sq @ ''test-token'' @ sq) \<and>
   \<not> includes_str
     (snd (hd (outputFile_calls (snd (wrapFunctions None
       (fixture_plugin ''nodejs12.x'' (fixture_lumigo\<lparr>edgeHost := Some ''edge-host''\<rparr>) fixture_functions))))))
     (''edgeHost:'' @ sq @ ''edge-host'' @ sq) \<and>
   includes_str
     (snd (hd (outputFile_calls (snd (wrapFunctions None
       (fixture_plugin ''nodejs12.x'' (fixture_lumigo\<lparr>edgeHost := Some ''edge-host''\<rparr>) fixture_functions))))))
     (''token: '' @ sq @ ''test-token'' @ sq @ '',edgeHost: '' @ sq @ ''edge-host'' @ sq)"
proof -
  define P where
    "P = fixture_plugin ''nodejs12.x'' (fixture_lumigo\<lparr>edgeHost := Some ''edge-host''\<rparr>) fixture_functions"
  define W where
    "W = nodejsWrapper (tracerParameters ''test-token'' (Some ''edge-host''))
           (handlerModulePath ''hello.world'') (handlerFuncName ''hello.world'')"
  have g: "fst (fst (getFunctionsToWrap P None)) = Nodejs"
    "snd (fst (getFunctionsToWrap P None)) =
       map (\<lambda>(n, d). \<lparr>decl = d, localName = n\<rparr>) fixture_functions"
    by (simp_all add: P_def fixture_eligible_nodejs)
  have ne: "snd (fst (getFunctionsToWrap P None)) \<noteq> []"
    unfolding g(2) by (simp add: fixture_functions_def)
  have P: "token (custom_lumigo (the_service P)) = Some ''test-token''"
    "edgeHost (custom_lumigo (the_service P)) = Some ''edge-host''"
    "outputFile_calls P = []" "servicePath P = ''/project''"
    by (simp_all add: P_def fixture_plugin_def fixture_lumigo_def)
  have npm: "nodePackageManager (fixture_lumigo\<lparr>edgeHost := Some ''edge-host''\<rparr>) = None"
    by (simp add: fixture_lumigo_def)
  note i = fixture_install [OF npm, of "''nodejs12.x''" fixture_functions, folded P_def]
  note w = wrapFunctions_nodejs [OF g(1) ne P(1) conjunct1 [OF i]
      conjunct1 [OF conjunct2 [OF i]] conjunct2 [OF conjunct2 [OF i]]]
  have "outputFile_calls (snd (wrapFunctions None P)) =
          map (nodejsArtifact P ''test-token'' (Some ''edge-host''))
            (map (\<lambda>(n, d). \<lparr>decl = d, localName = n\<rparr>) fixture_functions)"
    using w unfolding g(2) P by simp
  then have first: "hd (outputFile_calls (snd (wrapFunctions None P))) =
          nodejsArtifact P ''test-token'' (Some ''edge-host'')
            \<lparr>decl = fixture_decl ''hello.world'', localName = ''hello''\<rparr>"
    by (simp add: fixture_functions_def)
  have path: "fst (nodejsArtifact P ''test-token'' (Some ''edge-host'')
                 \<lparr>decl = fixture_decl ''hello.world'', localName = ''hello''\<rparr>) =
             ''/project/_lumigo/hello.js''"
    by (simp add: nodejsArtifact_def P(4) folderPath_def path_join_def
        normalize_def isAbsolute_def Let_def)
  have body: "snd (nodejsArtifact P ''test-token'' (Some ''edge-host'')
                 \<lparr>decl = fixture_decl ''hello.world'', localName = ''hello''\<rparr>) = W"
    by (simp add: nodejsArtifact_def W_def fixture_decl_def)
  have n1: "\<not> includes_str W (''token:'' @ sq @ ''test-token'' @ sq)"
    unfolding W_def by code_simp
  have n2: "\<not> includes_str W (''edgeHost:'' @ sq @ ''edge-host'' @ sq)"
    unfolding W_def by code_simp
  have y: "includes_str W
             (''token: '' @ sq @ ''test-token'' @ sq @ '',edgeHost: '' @ sq @ ''edge-host'' @ sq)"
    unfolding W_def by code_simp
  from conjunct1 [OF w] path n1 n2 y show ?thesis
    unfolding P_def [symmetric] first body by simp
qed

section \<open>The per-function opt-out\<close>

text \<open>
  Claim C2 does not hold of this code: \<open>getFunctionsToWrap\<close> never reads the
  \<open>lumigo.enabled\<close> entry of a declaration. On the service of the test-suite, whose
  function \<open>skippy\<close> is declared with \<open>enabled: false\<close>, a Node.js pass succeeds,
  writes \<open>_lumigo/skippy.js\<close> and sets the handler of \<open>skippy\<close> to
  \<open>_lumigo/skippy.skip\<close>.
\<close>

theorem opt_out_function_is_wrapped:
  "map_of fixture_functions ''skippy'' =
     Some ((fixture_decl ''will.skip'')\<lparr>lumigo_enabled := Some False\<rparr>) \<and>
   fst (wrapFunctions None (fixture_plugin ''nodejs12.x'' fixture_lumigo fixture_functions)) = Inr () \<and>
   ''/project/_lumigo/skippy.js'' \<in>
     fst ` set (outputFile_calls
       (snd (wrapFunctions None (fixture_plugin ''nodejs12.x'' fixture_lumigo fixture_functions)))) \<and>
   map_of (service_functions (the_service
       (snd (wrapFunctions None (fixture_plugin ''nodejs12.x'' fixture_lumigo fixture_functions)))))
     ''skippy'' = Some ((fixture_decl ''_lumigo/skippy.skip'')\<lparr>lumigo_enabled := Some False\<rparr>)"
proof -
  define P where "P = fixture_plugin ''nodejs12.x'' fixture_lumigo fixture_functions"
  have g: "fst (fst (getFunctionsToWrap P None)) = Nodejs"
    "snd (fst (getFunctionsToWrap P None)) =
       map (\<lambda>(n, d). \<lparr>decl = d, localName = n\<rparr>) fixture_functions"
    by (simp_all add: P_def fixture_eligible_nodejs)
  have ne: "snd (fst (getFunctionsToWrap P None)) \<noteq> []"
    unfolding g(2) by (simp add: fixture_functions_def)
  have P: "token (custom_lumigo (the_service P)) = Some ''test-token''"
    "edgeHost (custom_lumigo (the_service P)) = None"
    "service_functions (the_service P) = fixture_functions"
    "outputFile_calls P = []" "servicePath P = ''/project''"
    by (simp_all add: P_def fixture_plugin_def fixture_lumigo_def)
  have npm: "nodePackageManager fixture_lumigo = None"
    by (simp add: fixture_lumigo_def)
  note i = fixture_install [OF npm, of "''nodejs12.x''" fixture_functions, folded P_def]
  note w = wrapFunctions_nodejs [OF g(1) ne P(1) conjunct1 [OF i]
      conjunct1 [OF conjunct2 [OF i]] conjunct2 [OF conjunct2 [OF i]]]
  have abs: "isAbsolute (servicePath P)"
    by (simp add: P(5) isAbsolute_def)
  have "fst (nodejsArtifact P ''test-token'' None
               \<lparr>decl = (fixture_decl ''will.skip'')\<lparr>lumigo_enabled := Some False\<rparr>,
                  localName = ''skippy''\<rparr>) = ''/project/_lumigo/skippy.js''"
    by (simp add: nodejsArtifact_def P(5) folderPath_def path_join_def
        normalize_def isAbsolute_def Let_def)
  moreover
  have "outputFile_calls (snd (wrapFunctions None P)) =
          map (nodejsArtifact P ''test-token'' None)
            (map (\<lambda>(n, d). \<lparr>decl = d, localName = n\<rparr>) fixture_functions)"
    using w unfolding g(2) P by simp
  ultimately
  have files: "''/project/_lumigo/skippy.js'' \<in>
     fst ` set (outputFile_calls (snd (wrapFunctions None P)))"
    by (simp add: fixture_functions_def image_iff)
  have "setHandlers (nodejsHandler P)
          (map (\<lambda>(n, d). \<lparr>decl = d, localName = n\<rparr>) fixture_functions)
          fixture_functions =
        [(''hello'', fixture_decl ''_lumigo/hello.world''),
         (''hello.world'', fixture_decl ''_lumigo/hello.world.handler''),
         (''foo'', fixture_decl ''_lumigo/foo.handler''),
         (''bar'', fixture_decl ''_lumigo/bar.handler''),
         (''jet'', fixture_decl ''_lumigo/jet.handler''),
         (''pack'', fixture_decl ''_lumigo/pack.handler''),
         (''skippy'', (fixture_decl ''_lumigo/skippy.skip'')\<lparr>lumigo_enabled := Some False\<rparr>)]"
    by (simp add: fixture_functions_def nodejsHandler_plain [OF abs] setHandler_def)
       (simp add: fixture_decl_def handlerFuncName_def basename_def
          lastIndexOf_def substrFrom_def substrStart_def Let_def)
  moreover
  have "service_functions (the_service (snd (wrapFunctions None P))) =
          setHandlers (nodejsHandler P)
            (map (\<lambda>(n, d). \<lparr>decl = d, localName = n\<rparr>) fixture_functions)
            fixture_functions"
    using w unfolding g(2) P by simp
  ultimately
  have handlers: "map_of (service_functions (the_service (snd (wrapFunctions None P)))) ''skippy'' =
      Some ((fixture_decl ''_lumigo/skippy.skip'')\<lparr>lumigo_enabled := Some False\<rparr>)"
    by simp
  have decl: "map_of fixture_functions ''skippy'' =
     Some ((fixture_decl ''will.skip'')\<lparr>lumigo_enabled := Some False\<rparr>)"
    by (simp add: fixture_functions_def)
  from decl conjunct1 [OF w] files handlers show ?thesis
    unfolding P_def by blast
qed

section \<open>The token\<close>

text \<open>
  Claim C4, as stated, fails for the empty token: \<open>wrapFunctions\<close> compares the token
  with \<open>undefined\<close> only. With the token set to the empty string and seven functions
  to wrap, the pass succeeds, runs the install command and writes seven files.
\<close>

theorem empty_token_counterexample:
  "token (custom_lumigo (the_service
      (fixture_plugin ''nodejs12.x'' (fixture_lumigo\<lparr>token := Some []\<rparr>) fixture_functions))) = Some [] \<and>
   snd (fst (getFunctionsToWrap
      (fixture_plugin ''nodejs12.x'' (fixture_lumigo\<lparr>token := Some []\<rparr>) fixture_functions) None)) \<noteq> [] \<and>
   fst (wrapFunctions None
      (fixture_plugin ''nodejs12.x'' (fixture_lumigo\<lparr>token := Some []\<rparr>) fixture_functions)) = Inr () \<and>
   execSync_calls (snd (wrapFunctions None
      (fixture_plugin ''nodejs12.x'' (fixture_lumigo\<lparr>token := Some []\<rparr>) fixture_functions))) =
     [''npm install --no-save @lumigo/tracer@latest''] \<and>
   length (outputFile_calls (snd (wrapFunctions None
      (fixture_plugin ''nodejs12.x'' (fixture_lumigo\<lparr>token := Some []\<rparr>) fixture_functions)))) = 7"
proof -
  define P where
    "P = fixture_plugin ''nodejs12.x'' (fixture_lumigo\<lparr>token := Some []\<rparr>) fixture_functions"
  have g: "fst (fst (getFunctionsToWrap P None)) = Nodejs"
    "snd (fst (getFunctionsToWrap P None)) =
       map (\<lambda>(n, d). \<lparr>decl = d, localName = n\<rparr>) fixture_functions"
    by (simp_all add: P_def fixture_eligible_nodejs)
  have ne: "snd (fst (getFunctionsToWrap P None)) \<noteq> []"
    unfolding g(2) by (simp add: fixture_functions_def)
  have P: "token (custom_lumigo (the_service P)) = Some []"
    "isNodeTracerInstalled_memo P = None" "packageJson P = Inr []"
    "nodePackageManager (custom_lumigo (the_service P)) = None"
    "execSync_output P ''npm install --no-save @lumigo/tracer@latest'' = Some []"
    "outputFile_calls P = []" "execSync_calls P = []"
    by (simp_all add: P_def fixture_plugin_def fixture_lumigo_def)
  note i = fresh_npm_install [OF P(2-5)]
  note w = wrapFunctions_nodejs [OF g(1) ne P(1) i P(5)]
  have "length (outputFile_calls (snd (wrapFunctions None P))) = 7"
    using w unfolding g(2) P by (simp add: fixture_functions_def)
  with P(1) ne w show ?thesis
    unfolding P_def [symmetric] by (simp add: P)
qed

text \<open>
  Claim C4, amended. Whenever there is a function to wrap and the token is absent
  (undefined), \<open>wrapFunctions\<close> fails with the error that says the token cannot be
  found, and the pass stops there: no command has been run, no file written or removed,
  and the service is as it was.
\<close>

theorem missing_token_aborts:
  assumes "snd (fst (getFunctionsToWrap p names)) \<noteq> []"
      and "token (custom_lumigo (the_service p)) = None"
  shows "fst (wrapFunctions names p) = Inl tokenMissing \<and>
         outputFile_calls (snd (wrapFunctions names p)) = outputFile_calls p \<and>
         execSync_calls (snd (wrapFunctions names p)) = execSync_calls p \<and>
         remove_calls (snd (wrapFunctions names p)) = remove_calls p \<and>
         the_service (snd (wrapFunctions names p)) = the_service p"
  using assms by (simp add: wrapFunctions_unfold Let_def)

theorem missing_token_aborts_witness:
  "fst (wrapFunctions None
          (fixture_plugin ''nodejs12.x'' (fixture_lumigo\<lparr>token := None\<rparr>) fixture_functions)) =
     Inl tokenMissing \<and>
   outputFile_calls (snd (wrapFunctions None
          (fixture_plugin ''nodejs12.x'' (fixture_lumigo\<lparr>token := None\<rparr>) fixture_functions))) = [] \<and>
   execSync_calls (snd (wrapFunctions None
          (fixture_plugin ''nodejs12.x'' (fixture_lumigo\<lparr>token := None\<rparr>) fixture_functions))) = []"
proof -
  define P where
    "P = fixture_plugin ''nodejs12.x'' (fixture_lumigo\<lparr>token := None\<rparr>) fixture_functions"
  have ne: "snd (fst (getFunctionsToWrap P None)) \<noteq> []"
    by (simp add: P_def fixture_eligible_nodejs) (simp add: fixture_functions_def)
  have P: "token (custom_lumigo (the_service P)) = None"
    "outputFile_calls P = []" "execSync_calls P = []"
    by (simp_all add: P_def fixture_plugin_def fixture_lumigo_def)
  from missing_token_aborts [OF ne P(1)] show ?thesis
    unfolding P_def [symmetric] by (simp add: P)
qed

section \<open>Layer mode\<close>

text \<open>
  Claim C7 does not hold of this code: \<open>wrapFunctions\<close> never reads \<open>useLayers\<close>. On
  the service of the test-suite with \<open>useLayers: true\<close>, deploying the single function
  \<open>hello\<close> runs the install command, writes \<open>_lumigo/hello.js\<close> and sets the handler
  to \<open>_lumigo/hello.world\<close>; the function gets no layer and no environment.
\<close>

theorem layer_mode_is_ignored:
  "useLayers (custom_lumigo (the_service
      ((fixture_plugin ''nodejs12.x'' (fixture_lumigo\<lparr>useLayers := Some True\<rparr>) fixture_functions)
         \<lparr>options_function := Some ''hello''\<rparr>))) = Some True \<and>
   fst (afterDeployFunctionInitialize
      ((fixture_plugin ''nodejs12.x'' (fixture_lumigo\<lparr>useLayers := Some True\<rparr>) fixture_functions)
         \<lparr>options_function := Some ''hello''\<rparr>)) = Inr () \<and>
   map fst (outputFile_calls (snd (afterDeployFunctionInitialize
      ((fixture_plugin ''nodejs12.x'' (fixture_lumigo\<lparr>useLayers := Some True\<rparr>) fixture_functions)
         \<lparr>options_function := Some ''hello''\<rparr>)))) = [''/project/_lumigo/hello.js''] \<and>
   execSync_calls (snd (afterDeployFunctionInitialize
      ((fixture_plugin ''nodejs12.x'' (fixture_lumigo\<lparr>useLayers := Some True\<rparr>) fixture_functions)
         \<lparr>options_function := Some ''hello''\<rparr>))) =
     [''npm install --no-save @lumigo/tracer@latest''] \<and>
   map_option (\<lambda>d. (handler d, layers d, environment d))
     (map_of (service_functions (the_service (snd (afterDeployFunctionInitialize
        ((fixture_plugin ''nodejs12.x'' (fixture_lumigo\<lparr>useLayers := Some True\<rparr>) fixture_functions)
           \<lparr>options_function := Some ''hello''\<rparr>))))) ''hello'') =
     Some (''_lumigo/hello.world'', None, None)"
proof -
  define P where
    "P = (fixture_plugin ''nodejs12.x'' (fixture_lumigo\<lparr>useLayers := Some True\<rparr>) fixture_functions)
           \<lparr>options_function := Some ''hello''\<rparr>"
  have s: "the_service P =
             the_service (fixture_plugin ''nodejs12.x'' (fixture_lumigo\<lparr>useLayers := Some True\<rparr>)
               fixture_functions)"
    by (simp add: P_def fixture_plugin_def)
  note e = fixture_eligible_hello [OF s]
  have g: "fst (fst (getFunctionsToWrap P (Some [''hello'']))) = Nodejs"
    "snd (fst (getFunctionsToWrap P (Some [''hello'']))) =
       [\<lparr>decl = fixture_decl ''hello.world'', localName = ''hello''\<rparr>]"
    by (simp_all add: e)
  have ne: "snd (fst (getFunctionsToWrap P (Some [''hello'']))) \<noteq> []"
    unfolding g(2) by simp
  have P: "token (custom_lumigo (the_service P)) = Some ''test-token''"
    "isNodeTracerInstalled_memo P = None" "packageJson P = Inr []"
    "nodePackageManager (custom_lumigo (the_service P)) = None"
    "execSync_output P ''npm install --no-save @lumigo/tracer@latest'' = Some []"
    "outputFile_calls P = []" "execSync_calls P = []"
    "edgeHost (custom_lumigo (the_service P)) = None"
    "service_functions (the_service P) = fixture_functions"
    "servicePath P = ''/project''" "options_function P = Some ''hello''"
    "useLayers (custom_lumigo (the_service P)) = Some True"
    by (simp_all add: P_def fixture_plugin_def fixture_lumigo_def)
  note i = fresh_npm_install [OF P(2-5)]
  note w = wrapFunctions_nodejs [OF g(1) ne P(1) i P(5)]
  have abs: "isAbsolute (servicePath P)"
    by (simp add: P(10) isAbsolute_def)
  have d: "afterDeployFunctionInitialize P = wrapFunctions (Some [''hello'']) P"
    by (simp add: afterDeployFunctionInitialize_def P(11))
  have f: "fst (nodejsArtifact P ''test-token'' None
                 \<lparr>decl = fixture_decl ''hello.world'', localName = ''hello''\<rparr>) =
             ''/project/_lumigo/hello.js''"
    by (simp add: nodejsArtifact_def P(10) folderPath_def path_join_def
        normalize_def isAbsolute_def Let_def)
  have files: "map fst (outputFile_calls (snd (wrapFunctions (Some [''hello'']) P))) =
                 [''/project/_lumigo/hello.js'']"
    using w f unfolding g(2) P by simp
  have "setHandlers (nodejsHandler P) [\<lparr>decl = fixture_decl ''hello.world'', localName = ''hello''\<rparr>]
          fixture_functions =
        setHandler ''hello'' ''_lumigo/hello.world'' fixture_functions"
    by (simp add: nodejsHandler_plain [OF abs])
       (simp add: fixture_decl_def handlerFuncName_def basename_def
          lastIndexOf_def substrFrom_def substrStart_def Let_def)
  moreover
  have "service_functions (the_service (snd (wrapFunctions (Some [''hello'']) P))) =
          setHandlers (nodejsHandler P)
            [\<lparr>decl = fixture_decl ''hello.world'', localName = ''hello''\<rparr>] fixture_functions"
    using w unfolding g(2) P by simp
  ultimately
  have h: "map_option (\<lambda>d. (handler d, layers d, environment d))
     (map_of (service_functions (the_service (snd (wrapFunctions (Some [''hello'']) P)))) ''hello'') =
     Some (''_lumigo/hello.world'', None, None)"
    by (simp add: map_of_setHandler) (simp add: fixture_functions_def fixture_decl_def)
  from w files h P(12) show ?thesis
    unfolding P_def [symmetric] d by (simp add: P)
qed

section \<open>The clean-up\<close>

text \<open>
  Claim C8. When there is no function to wrap, \<open>afterCreateDeploymentArtifacts\<close>
  returns without removing anything and without running a command. Otherwise it
  removes the folder \<open>_lumigo\<close> under the service path, once; it runs the uninstall
  command of the configured package manager only for the Node.js family and only when
  the tracer check answers no; for the Python family, or when the check answers yes,
  it runs nothing and returns without an error. The check answers what the manifest
  said the first time it was asked, which is when \<open>installLumigoNodejs\<close> ran: the
  answer is stored then and read afterwards.
\<close>

theorem cleanup_removes_folder_and_tracer:
  "((snd (fst (getFunctionsToWrap p None)) = [] \<longrightarrow>
      fst (afterCreateDeploymentArtifacts p) = Inr () \<and>
      remove_calls (snd (afterCreateDeploymentArtifacts p)) = remove_calls p \<and>
      execSync_calls (snd (afterCreateDeploymentArtifacts p)) = execSync_calls p) \<and>
   (snd (fst (getFunctionsToWrap p None)) \<noteq> [] \<longrightarrow>
      remove_calls (snd (afterCreateDeploymentArtifacts p)) = remove_calls p @ [folderPath p] \<and>
      execSync_calls (snd (afterCreateDeploymentArtifacts p)) =
        execSync_calls p @
        (if fst (fst (getFunctionsToWrap p None)) = Nodejs \<and> \<not> fst (isNodeTracerInstalled p)
         then (if get_nodePackageManager p = ''npm'' then [''npm uninstall @lumigo/tracer'']
               else if get_nodePackageManager p = ''yarn'' then [''yarn remove @lumigo/tracer'']
               else [])
         else []) \<and>
      (fst (fst (getFunctionsToWrap p None)) \<noteq> Nodejs \<or> fst (isNodeTracerInstalled p) \<longrightarrow>
         fst (afterCreateDeploymentArtifacts p) = Inr ()))) \<and>
   ((isNodeTracerInstalled_memo p = None \<longrightarrow>
      fst (isNodeTracerInstalled p) =
        (case packageJson p of Inr deps \<Rightarrow> ''@lumigo/tracer'' \<in> set deps | Inl m \<Rightarrow> False)) \<and>
    (\<forall>b. isNodeTracerInstalled_memo p = Some b \<longrightarrow> fst (isNodeTracerInstalled p) = b) \<and>
    isNodeTracerInstalled_memo (snd (installLumigoNodejs p)) = Some (fst (isNodeTracerInstalled p)))"
  by (rule conjI [OF cleanup_effects tracer_check_is_remembered])

theorem cleanup_removes_folder_and_tracer_witness:
  "remove_calls (snd (afterCreateDeploymentArtifacts
      (fixture_plugin ''nodejs12.x'' fixture_lumigo fixture_functions))) = [''/project/_lumigo''] \<and>
   execSync_calls (snd (afterCreateDeploymentArtifacts
      (fixture_plugin ''nodejs12.x'' fixture_lumigo fixture_functions))) =
     [''npm uninstall @lumigo/tracer''] \<and>
   fst (afterCreateDeploymentArtifacts (fixture_plugin ''nodejs12.x'' fixture_lumigo [])) = Inr () \<and>
   remove_calls (snd (afterCreateDeploymentArtifacts
      (fixture_plugin ''nodejs12.x'' fixture_lumigo []))) = [] \<and>
   execSync_calls (snd (afterCreateDeploymentArtifacts
      (fixture_plugin ''nodejs12.x'' fixture_lumigo []))) = []"
proof -
  define P where "P = fixture_plugin ''nodejs12.x'' fixture_lumigo fixture_functions"
  define Q where "Q = fixture_plugin ''nodejs12.x'' fixture_lumigo []"
  have g: "fst (fst (getFunctionsToWrap P None)) = Nodejs"
    "snd (fst (getFunctionsToWrap P None)) \<noteq> []"
    by (simp_all add: P_def fixture_eligible_nodejs) (simp add: fixture_functions_def)
  have P: "remove_calls P = []" "execSync_calls P = []" "\<not> tracerInstalled P"
    "get_nodePackageManager P = ''npm''" "folderPath P = ''/project/_lumigo''"
    by (simp_all add: P_def fixture_plugin_def fixture_lumigo_def tracerInstalled_def
        get_nodePackageManager_def toLowerCase_npm folderPath_def path_join_def normalize_def
        isAbsolute_def Let_def)
  have q: "snd (fst (getFunctionsToWrap Q None)) = []"
    by (simp add: Q_def fixture_eligible_none)
  have Q: "remove_calls Q = []" "execSync_calls Q = []"
    by (simp_all add: Q_def fixture_plugin_def)
  from cleanup_removes_folder_and_tracer [of P] cleanup_removes_folder_and_tracer [of Q] g q show ?thesis
    unfolding P_def [symmetric] Q_def [symmetric] by (simp add: P Q)
qed

end
